theory Spec2Isabelle
  imports Complex_Main "HOL-Library.Log_Nat" "HOL-Library.Sublist"
begin

section \<open>JavaScript strings\<close>

text \<open>
  A JavaScript string is a sequence of UTF-16 code units. The model is \<^typ>\<open>string\<close>:
  a list of characters, each read as the code unit with the same number (the
  code units U+0000 to U+00FF). The string methods the program calls are defined on
  that repertoire as ECMAScript defines them.
\<close>

definition isWhiteSpace :: "char \<Rightarrow> bool" where
  \<comment> \<open>WhiteSpace and LineTerminator: TAB, LF, VT, FF, CR, SP, NBSP\<close>
  "isWhiteSpace c \<longleftrightarrow> c \<in> set [CHR 0x09, CHR 0x0A, CHR 0x0B, CHR 0x0C, CHR 0x0D, CHR 0x20, CHR 0xA0]"

definition trimStart :: "string \<Rightarrow> string" where
  "trimStart s = dropWhile isWhiteSpace s"

definition trimEnd :: "string \<Rightarrow> string" where
  "trimEnd s = rev (dropWhile isWhiteSpace (rev s))"

definition trim :: "string \<Rightarrow> string" where
  \<comment> \<open>\<^verbatim>\<open>String.prototype.trim\<close>: white space removed at both ends\<close>
  "trim s = trimEnd (trimStart s)"

function replaceWhiteSpaceRuns :: "string \<Rightarrow> string \<Rightarrow> string" where
  \<comment> \<open>\<^verbatim>\<open>s.replace(/\s+/g, rep)\<close>: every maximal run of white space becomes \<open>rep\<close>\<close>
  "replaceWhiteSpaceRuns rep [] = []"
| "replaceWhiteSpaceRuns rep (c # cs) =
     (if isWhiteSpace c then rep @ replaceWhiteSpaceRuns rep (dropWhile isWhiteSpace cs)
      else c # replaceWhiteSpaceRuns rep cs)"
  by pat_completeness auto
termination
  by (relation "measure (\<lambda>(rep, s). length s)")
     (auto simp: length_dropWhile_le less_Suc_eq_le)

function replaceAll :: "string \<Rightarrow> string \<Rightarrow> string \<Rightarrow> string" where
  \<comment> \<open>\<^verbatim>\<open>s.replaceAll(pat, rep)\<close> with a string pattern: the occurrences of \<open>pat\<close>,
      found left to right without overlap, become \<open>rep\<close>; the empty pattern matches
      before every code unit and at the end\<close>
  "replaceAll pat rep [] = (if pat = [] then rep else [])"
| "replaceAll pat rep (c # cs) =
     (if pat = [] then rep @ c # replaceAll pat rep cs
      else if prefix pat (c # cs) then rep @ replaceAll pat rep (drop (length pat) (c # cs))
      else c # replaceAll pat rep cs)"
  by pat_completeness auto
termination
  by (relation "measure (\<lambda>(pat, rep, s). length s)") (auto simp: neq_Nil_conv)

fun replaceFirst :: "string \<Rightarrow> string \<Rightarrow> string \<Rightarrow> string" where
  \<comment> \<open>\<^verbatim>\<open>s.replace(pat, rep)\<close> with a string pattern: only the first occurrence\<close>
  "replaceFirst pat rep [] = (if pat = [] then rep else [])"
| "replaceFirst pat rep (c # cs) =
     (if prefix pat (c # cs) then rep @ drop (length pat) (c # cs)
      else c # replaceFirst pat rep cs)"

definition toLowerCaseChar :: "char \<Rightarrow> char" where
  \<comment> \<open>the lower-case mapping of Unicode on U+0000 to U+00FF: A to Z, and
      U+00C0 to U+00DE without the multiplication sign U+00D7\<close>
  "toLowerCaseChar c =
     (let n = (of_char c :: nat) in
      if (65 \<le> n \<and> n \<le> 90) \<or> (192 \<le> n \<and> n \<le> 222 \<and> n \<noteq> 215)
      then char_of (n + 32) else c)"

definition toLowerCase :: "string \<Rightarrow> string" where
  "toLowerCase s = map toLowerCaseChar s"

fun join :: "string \<Rightarrow> string list \<Rightarrow> string" where
  \<comment> \<open>\<^verbatim>\<open>Array.prototype.join\<close> on an array of strings\<close>
  "join sep [] = []"
| "join sep [x] = x"
| "join sep (x # y # ys) = x @ sep @ join sep (y # ys)"

definition sliceString :: "string \<Rightarrow> int \<Rightarrow> int \<Rightarrow> string" where
  \<comment> \<open>\<^verbatim>\<open>String.prototype.slice(start, end)\<close> with integer arguments: a negative index
      counts from the end, and both are clamped to the string\<close>
  "sliceString s start end' =
     (let len = int (length s);
          from = (if start < 0 then max (len + start) 0 else min start len);
          to = (if end' < 0 then max (len + end') 0 else min end' len)
      in take (nat (to - from)) (drop (nat from) s))"

section \<open>JavaScript numbers\<close>

text \<open>
  A Number is an IEEE 754 binary64 value. A finite one is modelled by the rational it
  denotes (the two zeros are one value: the program only prints numbers, adds them and
  compares them, and \<^verbatim>\<open>String(-0)\<close> is \<^verbatim>\<open>"0"\<close>); the result of an
  arithmetic operation or of reading a literal is rounded to the nearest binary64 value,
  ties to even.
\<close>

datatype jsnumber = Finite rat | NaN | PosInfinity | NegInfinity

definition pow2 :: "int \<Rightarrow> rat" where
  "pow2 e = (if 0 \<le> e then 2 ^ nat e else 1 / 2 ^ nat (- e))"

definition pow10 :: "int \<Rightarrow> rat" where
  "pow10 e = (if 0 \<le> e then 10 ^ nat e else 1 / 10 ^ nat (- e))"

function digitCount :: "int \<Rightarrow> int \<Rightarrow> nat" where
  \<comment> \<open>the number of digits of \<open>n\<close> in base \<open>b\<close>\<close>
  "digitCount b n = (if 1 < b \<and> 0 < n then Suc (digitCount b (n div b)) else 0)"
  by pat_completeness auto
termination
  by (relation "measure (\<lambda>(b, n). nat n)") (auto simp: int_div_less_self)

declare digitCount.simps [simp del]

definition floorLog :: "int \<Rightarrow> rat \<Rightarrow> int" where
  \<comment> \<open>for \<open>a > 0\<close> and \<open>b > 1\<close>: the integer \<open>k\<close> with \<open>b ^ k \<le> a < b ^ (k + 1)\<close>\<close>
  "floorLog b a =
     (if 1 \<le> a then int (digitCount b \<lfloor>a\<rfloor>) - 1
      else - int (digitCount b (\<lceil>1 / a\<rceil> - 1)))"

definition roundHalfEven :: "rat \<Rightarrow> int" where
  "roundHalfEven x =
     (let f = \<lfloor>x\<rfloor>; r = x - of_int f
      in if r < 1 / 2 then f else if 1 / 2 < r then f + 1 else if even f then f else f + 1)"

definition roundToDouble :: "rat \<Rightarrow> jsnumber" where
  \<comment> \<open>the binary64 value nearest to \<open>q\<close>: 53 significant bits (\<open>m\<close> units \<open>u\<close> in the
      last place), the least exponent of \<open>u\<close> is -1074, and a magnitude that rounds
      to 2^1024 or more is an infinity\<close>
  "roundToDouble q =
     (if q = 0 then Finite 0
      else
        let a = \<bar>q\<bar>;
            e = max (floorLog 2 a) (- 1022);
            u = pow2 (e - 52);
            m = roundHalfEven (a / u)
        in if 1024 \<le> e \<or> (e = 1023 \<and> 2 ^ 53 \<le> m)
           then (if q < 0 then NegInfinity else PosInfinity)
           else Finite (if q < 0 then - (of_int m * u) else of_int m * u))"

definition isFinite :: "jsnumber \<Rightarrow> bool" where
  \<comment> \<open>\<^verbatim>\<open>Number.isFinite\<close> on a Number\<close>
  "isFinite n = (case n of Finite q \<Rightarrow> True | _ \<Rightarrow> False)"

definition jsAdd :: "jsnumber \<Rightarrow> jsnumber \<Rightarrow> jsnumber" where
  \<comment> \<open>the \<^verbatim>\<open>+\<close> of two Numbers\<close>
  "jsAdd x y =
     (case (x, y) of
        (NaN, _) \<Rightarrow> NaN
      | (_, NaN) \<Rightarrow> NaN
      | (PosInfinity, NegInfinity) \<Rightarrow> NaN
      | (NegInfinity, PosInfinity) \<Rightarrow> NaN
      | (PosInfinity, _) \<Rightarrow> PosInfinity
      | (_, PosInfinity) \<Rightarrow> PosInfinity
      | (NegInfinity, _) \<Rightarrow> NegInfinity
      | (_, NegInfinity) \<Rightarrow> NegInfinity
      | (Finite a, Finite b) \<Rightarrow> roundToDouble (a + b))"

definition jsLess :: "jsnumber \<Rightarrow> jsnumber \<Rightarrow> bool" where
  \<comment> \<open>the \<^verbatim>\<open><\<close> of two Numbers: false when either is NaN\<close>
  "jsLess x y =
     (case (x, y) of
        (NaN, _) \<Rightarrow> False
      | (_, NaN) \<Rightarrow> False
      | (Finite a, Finite b) \<Rightarrow> a < b
      | (NegInfinity, NegInfinity) \<Rightarrow> False
      | (NegInfinity, _) \<Rightarrow> True
      | (_, PosInfinity) \<Rightarrow> (x \<noteq> PosInfinity)
      | (PosInfinity, _) \<Rightarrow> False
      | (_, NegInfinity) \<Rightarrow> False)"

definition mathMax :: "jsnumber \<Rightarrow> jsnumber \<Rightarrow> jsnumber" where
  \<comment> \<open>\<^verbatim>\<open>Math.max\<close> of two Numbers: NaN when either is NaN\<close>
  "mathMax x y =
     (if x = NaN \<or> y = NaN then NaN
      else if jsLess x y then y else x)"

definition toIntegerOrInfinity :: "jsnumber \<Rightarrow> jsnumber" where
  \<comment> \<open>NaN becomes 0; a finite number is truncated towards zero\<close>
  "toIntegerOrInfinity n =
     (case n of
        NaN \<Rightarrow> Finite 0
      | Finite q \<Rightarrow> Finite (of_int (if q < 0 then - \<lfloor>- q\<rfloor> else \<lfloor>q\<rfloor>))
      | _ \<Rightarrow> n)"

subsection \<open>Number to string\<close>

definition digitChar :: "int \<Rightarrow> char" where
  \<comment> \<open>the character of the last decimal digit of \<open>d\<close>\<close>
  "digitChar d = ''0123456789'' ! nat (d mod 10)"

function decimalDigits :: "int \<Rightarrow> string" where
  \<comment> \<open>the decimal numeral of a non-negative integer, without leading zeros\<close>
  "decimalDigits n =
     (if n < 10 then [digitChar n] else decimalDigits (n div 10) @ [digitChar n])"
  by pat_completeness auto
termination
  by (relation "measure nat") auto

declare decimalDigits.simps [simp del]

definition digitCandidate :: "rat \<Rightarrow> int \<Rightarrow> nat \<Rightarrow> int option" where
  \<comment> \<open>for \<open>10 ^ (n - 1) \<le> x < 10 ^ n\<close>: an integer \<open>s\<close> of \<open>k\<close> digits such that
      \<open>s * 10 ^ (n - k)\<close> is read back as \<open>x\<close>, the one nearer to \<open>x\<close> when there are two\<close>
  "digitCandidate x n k =
     (let sc = pow10 (n - int k);
          lo = \<lfloor>x / sc\<rfloor>;
          hi = lo + 1;
          okLo = (roundToDouble (of_int lo * sc) = Finite x);
          okHi = (roundToDouble (of_int hi * sc) = Finite x)
      in if okLo \<and> okHi then Some (if x - of_int lo * sc \<le> of_int hi * sc - x then lo else hi)
         else if okLo then Some lo
         else if okHi then Some hi
         else None)"

fun shortestDigits :: "rat \<Rightarrow> int \<Rightarrow> nat \<Rightarrow> nat \<Rightarrow> int \<times> nat" where
  \<comment> \<open>the least number of digits \<open>k\<close>, from \<open>k\<close> upwards, that has a candidate; a
      binary64 value has one with at most 17 digits\<close>
  "shortestDigits x n k 0 = (\<lfloor>x / pow10 (n - int k)\<rfloor>, k)"
| "shortestDigits x n k (Suc fuel) =
     (case digitCandidate x n k of
        Some s \<Rightarrow> (s, k)
      | None \<Rightarrow> shortestDigits x n (Suc k) fuel)"

definition numberLayout :: "string \<Rightarrow> nat \<Rightarrow> int \<Rightarrow> string" where
  \<comment> \<open>the four layouts of \<^verbatim>\<open>Number::toString\<close>: the \<open>k\<close> digits \<open>ds\<close> with the decimal
      point after \<open>n\<close> of them\<close>
  "numberLayout ds k n =
     (if int k \<le> n \<and> n \<le> 21 then ds @ replicate (nat (n - int k)) CHR ''0''
      else if 0 < n \<and> n \<le> 21 then take (nat n) ds @ ''.'' @ drop (nat n) ds
      else if - 6 < n \<and> n \<le> 0 then ''0.'' @ replicate (nat (- n)) CHR ''0'' @ ds
      else
        let e = n - 1;
            sign = (if e < 0 then CHR ''-'' else CHR ''+'');
            es = decimalDigits \<bar>e\<bar>
        in if k = 1 then ds @ ''e'' @ [sign] @ es
           else take 1 ds @ ''.'' @ drop 1 ds @ ''e'' @ [sign] @ es)"

definition positiveToString :: "rat \<Rightarrow> string" where
  \<comment> \<open>\<^verbatim>\<open>Number::toString\<close> in radix 10 for a finite \<open>x > 0\<close>: the digits \<open>s\<close>, their
      number \<open>k\<close> and the position \<open>n\<close> of the decimal point\<close>
  "positiveToString x =
     (let n0 = floorLog 10 x + 1;
          (s0, k) = shortestDigits x n0 1 17;
          (s, n) = (if s0 = 10 ^ k then (10 ^ (k - 1), n0 + 1) else (s0, n0))
      in numberLayout (decimalDigits s) k n)"

definition numberToString :: "jsnumber \<Rightarrow> string" where
  \<comment> \<open>\<^verbatim>\<open>String(n)\<close> of a Number\<close>
  "numberToString x =
     (case x of
        NaN \<Rightarrow> ''NaN''
      | PosInfinity \<Rightarrow> ''Infinity''
      | NegInfinity \<Rightarrow> ''-Infinity''
      | Finite q \<Rightarrow>
          if q = 0 then ''0''
          else if q < 0 then ''-'' @ positiveToString (- q)
          else positiveToString q)"

subsection \<open>String to number\<close>

definition isDigit :: "char \<Rightarrow> bool" where
  "isDigit c \<longleftrightarrow> (let n = (of_char c :: nat) in 48 \<le> n \<and> n \<le> 57)"

definition digitValue :: "char \<Rightarrow> int" where
  \<comment> \<open>the value of a digit of radix up to 16; -1 for any other character\<close>
  "digitValue c =
     (let n = (of_char c :: int) in
      if 48 \<le> n \<and> n \<le> 57 then n - 48
      else if 97 \<le> n \<and> n \<le> 102 then n - 87
      else if 65 \<le> n \<and> n \<le> 70 then n - 55
      else - 1)"

definition isDigitOf :: "int \<Rightarrow> char \<Rightarrow> bool" where
  "isDigitOf radix c \<longleftrightarrow> 0 \<le> digitValue c \<and> digitValue c < radix"

definition digitsValue :: "int \<Rightarrow> string \<Rightarrow> int" where
  "digitsValue radix ds = foldl (\<lambda>a c. a * radix + digitValue c) 0 ds"

definition parseNonDecimal :: "string \<Rightarrow> int option" where
  \<comment> \<open>NonDecimalIntegerLiteral: \<^verbatim>\<open>0x\<close>, \<^verbatim>\<open>0o\<close> or \<^verbatim>\<open>0b\<close> (in either case) and
      at least one digit of that radix\<close>
  "parseNonDecimal t =
     (case t of
        z # p # ds \<Rightarrow>
          (let radix = (if p = CHR ''x'' \<or> p = CHR ''X'' then 16
                        else if p = CHR ''o'' \<or> p = CHR ''O'' then 8
                        else if p = CHR ''b'' \<or> p = CHR ''B'' then 2
                        else 0)
           in if z = CHR ''0'' \<and> radix \<noteq> 0 \<and> ds \<noteq> [] \<and> list_all (isDigitOf radix) ds
              then Some (digitsValue radix ds) else None)
      | _ \<Rightarrow> None)"

definition parseExponent :: "string \<Rightarrow> int option" where
  \<comment> \<open>ExponentPart, all of \<open>r\<close>: \<^verbatim>\<open>e\<close> or \<^verbatim>\<open>E\<close>, an optional sign, at least one digit;
      the empty string is the absent exponent\<close>
  "parseExponent r =
     (case r of
        [] \<Rightarrow> Some 0
      | c # r1 \<Rightarrow>
          if c = CHR ''e'' \<or> c = CHR ''E'' then
            (let (sg, ds) = (case r1 of
                               [] \<Rightarrow> (1, [])
                             | d # r2 \<Rightarrow> if d = CHR ''+'' then (1, r2)
                                          else if d = CHR ''-'' then (- 1, r2)
                                          else (1, r1))
             in if ds \<noteq> [] \<and> list_all isDigit ds then Some (sg * digitsValue 10 ds) else None)
          else None)"

definition parseUnsignedDecimal :: "string \<Rightarrow> jsnumber" where
  \<comment> \<open>StrUnsignedDecimalLiteral, all of \<open>t\<close>: \<^verbatim>\<open>Infinity\<close>, or digits with an optional
      fraction and exponent, of which the integer part or the fraction may be missing
      but not both; NaN when \<open>t\<close> is none of these\<close>
  "parseUnsignedDecimal t =
     (if t = ''Infinity'' then PosInfinity
      else
        let ip = takeWhile isDigit t;
            r1 = dropWhile isDigit t;
            fp = (case r1 of [] \<Rightarrow> [] | c # r \<Rightarrow> if c = CHR ''.'' then takeWhile isDigit r else []);
            r2 = (case r1 of [] \<Rightarrow> [] | c # r \<Rightarrow> if c = CHR ''.'' then dropWhile isDigit r else r1)
        in if ip = [] \<and> fp = [] then NaN
           else (case parseExponent r2 of
                   None \<Rightarrow> NaN
                 | Some ex \<Rightarrow>
                     roundToDouble (of_int (digitsValue 10 (ip @ fp)) * pow10 (ex - int (length fp)))))"

definition negate :: "jsnumber \<Rightarrow> jsnumber" where
  "negate n = (case n of Finite q \<Rightarrow> Finite (- q) | PosInfinity \<Rightarrow> NegInfinity
               | NegInfinity \<Rightarrow> PosInfinity | NaN \<Rightarrow> NaN)"

definition stringToNumber :: "string \<Rightarrow> jsnumber" where
  \<comment> \<open>\<^verbatim>\<open>Number(s)\<close> of a string: white space is stripped at both ends, the empty
      string is 0, and what is no StrNumericLiteral is NaN\<close>
  "stringToNumber s =
     (let t = trim s in
      if t = [] then Finite 0
      else (case parseNonDecimal t of
              Some n \<Rightarrow> roundToDouble (of_int n)
            | None \<Rightarrow>
                (case t of
                   [] \<Rightarrow> NaN
                 | c # r \<Rightarrow> if c = CHR ''+'' then parseUnsignedDecimal r
                            else if c = CHR ''-'' then negate (parseUnsignedDecimal r)
                            else parseUnsignedDecimal t)))"

section \<open>JavaScript dates\<close>

text \<open>
  A Date holds a time value: an integral number of milliseconds since the epoch
  (1 January 1970 UTC), or NaN for an invalid Date.
\<close>

datatype jsdate = TimeValue int | InvalidDate

datatype error = RangeError

definition msPerDay :: int where
  "msPerDay = 86400000"

definition civilFromDays :: "int \<Rightarrow> int \<times> int \<times> int" where
  \<comment> \<open>year, month (1 to 12) and day of the month (1 to 31) of a day number in the
      proleptic Gregorian calendar; era, year of era and day of year count from 1 March\<close>
  "civilFromDays days =
     (let z = days + 719468;
          era = z div 146097;
          doe = z mod 146097;
          yoe = (doe - doe div 1460 + doe div 36524 - doe div 146096) div 365;
          doy = doe - (365 * yoe + yoe div 4 - yoe div 100);
          mp = (5 * doy + 2) div 153;
          d = doy - (153 * mp + 2) div 5 + 1;
          m = (if mp < 10 then mp + 3 else mp - 9);
          y = yoe + era * 400 + (if m \<le> 2 then 1 else 0)
      in (y, m, d))"

definition yearFromTime :: "int \<Rightarrow> int" where
  "yearFromTime t = fst (civilFromDays (t div msPerDay))"

definition monthFromTime :: "int \<Rightarrow> int" where
  \<comment> \<open>1 to 12\<close>
  "monthFromTime t = fst (snd (civilFromDays (t div msPerDay)))"

definition dateFromTime :: "int \<Rightarrow> int" where
  "dateFromTime t = snd (snd (civilFromDays (t div msPerDay)))"

definition hourFromTime :: "int \<Rightarrow> int" where
  "hourFromTime t = (t mod msPerDay) div 3600000"

definition minFromTime :: "int \<Rightarrow> int" where
  "minFromTime t = (t div 60000) mod 60"

definition secFromTime :: "int \<Rightarrow> int" where
  "secFromTime t = (t div 1000) mod 60"

definition msFromTime :: "int \<Rightarrow> int" where
  "msFromTime t = t mod 1000"

definition weekDay :: "int \<Rightarrow> int" where
  \<comment> \<open>0 is Sunday\<close>
  "weekDay t = (t div msPerDay + 4) mod 7"

definition pad2 :: "int \<Rightarrow> string" where
  \<comment> \<open>the last two decimal digits\<close>
  "pad2 n = [digitChar (n div 10), digitChar n]"

definition pad3 :: "int \<Rightarrow> string" where
  "pad3 n = [digitChar (n div 100), digitChar (n div 10), digitChar n]"

definition pad4 :: "int \<Rightarrow> string" where
  "pad4 n = [digitChar (n div 1000), digitChar (n div 100), digitChar (n div 10), digitChar n]"

definition pad6 :: "int \<Rightarrow> string" where
  "pad6 n = [digitChar (n div 100000), digitChar (n div 10000)] @ pad4 n"

definition isoYear :: "int \<Rightarrow> string" where
  \<comment> \<open>four digits for the years 0 to 9999, else a sign and six digits\<close>
  "isoYear y =
     (if 0 \<le> y \<and> y \<le> 9999 then pad4 y
      else (if y < 0 then ''-'' else ''+'') @ pad6 \<bar>y\<bar>)"

definition toISOString :: "jsdate \<Rightarrow> error + string" where
  \<comment> \<open>\<^verbatim>\<open>Date.prototype.toISOString\<close>: throws a RangeError on an invalid Date\<close>
  "toISOString d =
     (case d of
        InvalidDate \<Rightarrow> Inl RangeError
      | TimeValue t \<Rightarrow>
          Inr (isoYear (yearFromTime t) @ ''-'' @ pad2 (monthFromTime t) @ ''-''
               @ pad2 (dateFromTime t) @ ''T'' @ pad2 (hourFromTime t) @ '':''
               @ pad2 (minFromTime t) @ '':'' @ pad2 (secFromTime t) @ ''.''
               @ pad3 (msFromTime t) @ ''Z''))"

definition dateToString :: "jsdate \<Rightarrow> string" where
  \<comment> \<open>\<^verbatim>\<open>String(d)\<close> of a Date, the local time zone being UTC\<close>
  "dateToString d =
     (case d of
        InvalidDate \<Rightarrow> ''Invalid Date''
      | TimeValue t \<Rightarrow>
          [''Sun'', ''Mon'', ''Tue'', ''Wed'', ''Thu'', ''Fri'', ''Sat''] ! nat (weekDay t)
          @ '' ''
          @ [''Jan'', ''Feb'', ''Mar'', ''Apr'', ''May'', ''Jun'',
             ''Jul'', ''Aug'', ''Sep'', ''Oct'', ''Nov'', ''Dec''] ! nat (monthFromTime t - 1)
          @ '' '' @ pad2 (dateFromTime t) @ '' ''
          @ (let y = yearFromTime t;
                 ds = decimalDigits \<bar>y\<bar>
             in (if y < 0 then ''-'' else []) @ replicate (4 - length ds) CHR ''0'' @ ds)
          @ '' '' @ pad2 (hourFromTime t) @ '':'' @ pad2 (minFromTime t) @ '':''
          @ pad2 (secFromTime t) @ '' GMT+0000 (Coordinated Universal Time)'')"

section \<open>Identifiers\<close>

datatype SqlDialect = mysql | postgresql | sqlite | sqlserver

definition normalizeIdentifier :: "string \<Rightarrow> string" where
  "normalizeIdentifier v = replaceWhiteSpaceRuns ''_'' (trim v)"

definition quoteIdentifier :: "string \<Rightarrow> SqlDialect \<Rightarrow> string" where
  "quoteIdentifier identifier dialect =
     (let v = normalizeIdentifier identifier in
      if v = [] then []
      else if dialect = mysql \<or> dialect = sqlite then
        ''`'' @ replaceAll ''`'' ''``'' v @ ''`''
      else if dialect = sqlserver then
        ''['' @ replaceAll '']'' '']]'' v @ '']''
      else [CHR 0x22] @ replaceAll [CHR 0x22] [CHR 0x22, CHR 0x22] v @ [CHR 0x22])"

section \<open>Cell values and options\<close>

text \<open>
  A cell is \<^verbatim>\<open>unknown\<close> in the source; what the workbook reader and an array read
  out of range deliver is null, undefined, a Date, a number, a boolean or a string.
\<close>

datatype cell =
    CNull
  | CUndefined
  | CDate jsdate
  | CNumber jsnumber
  | CBoolean bool
  | CString string

record GeneratorOptions =
  dialect :: SqlDialect
  tableName :: string
  schemaName :: string
  rowsPerInsert :: jsnumber
  includeColumnList :: bool
  trimStrings :: bool
  emptyStringAsNull :: bool
  nullTokens :: "string list"

record ColumnConfig =
  sourceIndex :: jsnumber
  sourceName :: string
  targetName :: string
  included :: bool

datatype ExtraColumnMode = ModeText | ModeNumber | ModeBoolean | ModeNull | ModeSql

text \<open>
  The fields \<open>id\<close>, \<open>targetName\<close>, \<open>include\<close>, \<open>mode\<close> and \<open>value\<close> of an extra
  column carry the prefix \<open>extra\<close> here, and the field \<open>include\<close> of a column is
  \<open>included\<close>.
\<close>

record ExtraColumnConfig =
  extraId :: string
  extraTargetName :: string
  extraInclude :: bool
  extraMode :: ExtraColumnMode
  extraValue :: string

definition defaultOptions :: GeneratorOptions where
  "defaultOptions =
     \<lparr>dialect = mysql, tableName = ''my_table'', schemaName = [],
      rowsPerInsert = Finite 250, includeColumnList = True, trimStrings = True,
      emptyStringAsNull = True, nullTokens = [''null'', ''nil'', ''n/a'']\<rparr>"

definition cellToString :: "cell \<Rightarrow> string" where
  \<comment> \<open>\<^verbatim>\<open>String(value)\<close>\<close>
  "cellToString v =
     (case v of
        CNull \<Rightarrow> ''null''
      | CUndefined \<Rightarrow> ''undefined''
      | CDate d \<Rightarrow> dateToString d
      | CNumber n \<Rightarrow> numberToString n
      | CBoolean b \<Rightarrow> (if b then ''true'' else ''false'')
      | CString s \<Rightarrow> s)"

section \<open>The literal encoder\<close>

definition stringToSqlLiteral :: "string \<Rightarrow> GeneratorOptions \<Rightarrow> string" where
  \<comment> \<open>the last part of \<^verbatim>\<open>toSqlLiteral\<close>, from \<^verbatim>\<open>let stringValue = String(value)\<close> on\<close>
  "stringToSqlLiteral s0 options =
     (let stringValue = (if trimStrings options then trim s0 else s0) in
      if emptyStringAsNull options \<and> length stringValue = 0 then ''NULL''
      else
        let lower = toLowerCase stringValue in
        if list_ex (\<lambda>token. token = lower) (nullTokens options) then ''NULL''
        else [CHR 0x27] @ replaceAll [CHR 0x27] [CHR 0x27, CHR 0x27] stringValue @ [CHR 0x27])"

definition booleanToSql :: "bool \<Rightarrow> GeneratorOptions \<Rightarrow> string" where
  \<comment> \<open>the branch both encoders have for a boolean\<close>
  "booleanToSql b options =
     (if dialect options = postgresql then (if b then ''TRUE'' else ''FALSE'')
      else (if b then ''1'' else ''0''))"

definition toSqlLiteral :: "cell \<Rightarrow> GeneratorOptions \<Rightarrow> error + string" where
  "toSqlLiteral v options =
     (case v of
        CNull \<Rightarrow> Inr ''NULL''
      | CUndefined \<Rightarrow> Inr ''NULL''
      | CDate d \<Rightarrow>
          (case toISOString d of
             Inl e \<Rightarrow> Inl e
           | Inr isoText \<Rightarrow>
               Inr ([CHR 0x27] @ sliceString (replaceFirst ''T'' '' '' isoText) 0 19 @ [CHR 0x27]))
      | CNumber n \<Rightarrow> Inr (if isFinite n then numberToString n else ''NULL'')
      | CBoolean b \<Rightarrow> Inr (booleanToSql b options)
      | CString s \<Rightarrow> Inr (stringToSqlLiteral (cellToString v) options))"

section \<open>The extra-column encoder\<close>

definition extraValueToSql :: "ExtraColumnConfig \<Rightarrow> GeneratorOptions \<Rightarrow> error + string" where
  "extraValueToSql column options =
     (if extraMode column = ModeNull then Inr ''NULL''
      else if extraMode column = ModeSql then
        (let expression = trim (extraValue column) in
         Inr (if length expression > 0 then expression else ''NULL''))
      else if extraMode column = ModeNumber then
        (let numeric = stringToNumber (extraValue column) in
         Inr (if isFinite numeric then numberToString numeric else ''NULL''))
      else if extraMode column = ModeBoolean then
        (let truthy = [''true'', ''1'', ''yes'', ''y'', ''on''];
             v = toLowerCase (trim (extraValue column));
             boolValue = (v \<in> set truthy)
         in Inr (booleanToSql boolValue options))
      else toSqlLiteral (CString (extraValue column)) options)"

section \<open>Arrays\<close>

definition relativeIndex :: "nat \<Rightarrow> jsnumber \<Rightarrow> nat" where
  \<comment> \<open>an argument of \<^verbatim>\<open>Array.prototype.slice\<close> as a position in an array of length
      \<open>len\<close>: converted to an integer or infinity, counted from the end when negative,
      and clamped to the array\<close>
  "relativeIndex len n =
     (case toIntegerOrInfinity n of
        NegInfinity \<Rightarrow> 0
      | PosInfinity \<Rightarrow> len
      | Finite q \<Rightarrow> (if q < 0 then nat (max (int len + \<lfloor>q\<rfloor>) 0) else nat (min \<lfloor>q\<rfloor> (int len)))
      | NaN \<Rightarrow> 0)"

definition arraySlice :: "'a list \<Rightarrow> jsnumber \<Rightarrow> jsnumber \<Rightarrow> 'a list" where
  \<comment> \<open>\<^verbatim>\<open>items.slice(start, end)\<close>\<close>
  "arraySlice items start end' =
     (let len = length items;
          k = relativeIndex len start;
          final = relativeIndex len end'
      in take (final - k) (drop k items))"

definition arrayGet :: "cell list \<Rightarrow> jsnumber \<Rightarrow> cell" where
  \<comment> \<open>\<^verbatim>\<open>row[index]\<close>: undefined unless the index is an integer within the array\<close>
  "arrayGet row index =
     (case index of
        Finite q \<Rightarrow>
          if q = of_int \<lfloor>q\<rfloor> \<and> 0 \<le> q \<and> q < of_nat (length row) then row ! nat \<lfloor>q\<rfloor>
          else CUndefined
      | _ \<Rightarrow> CUndefined)"

partial_function (option) chunkLoop ::
  "'a list \<Rightarrow> jsnumber \<Rightarrow> jsnumber \<Rightarrow> 'a list list \<Rightarrow> 'a list list option" where
  \<comment> \<open>the \<^verbatim>\<open>for\<close> loop of \<^verbatim>\<open>chunkArray\<close>, from the index \<open>i\<close> and the chunks pushed so
      far; \<open>None\<close> when it does not end\<close>
  "chunkLoop items size' i chunks =
     (if jsLess i (Finite (of_nat (length items))) then
        chunkLoop items size' (jsAdd i size') (chunks @ [arraySlice items i (jsAdd i size')])
      else Some chunks)"

declare chunkLoop.simps [code]

definition chunkArray :: "'a list \<Rightarrow> jsnumber \<Rightarrow> 'a list list option" where
  "chunkArray items size' = chunkLoop items size' (Finite 0) []"

fun mapResult :: "('a \<Rightarrow> error + 'b) \<Rightarrow> 'a list \<Rightarrow> error + 'b list" where
  \<comment> \<open>\<^verbatim>\<open>xs.map(f)\<close> where \<open>f\<close> may throw: the first error ends the map\<close>
  "mapResult f [] = Inr []"
| "mapResult f (x # xs) =
     (case f x of
        Inl e \<Rightarrow> Inl e
      | Inr y \<Rightarrow> (case mapResult f xs of Inl e \<Rightarrow> Inl e | Inr ys \<Rightarrow> Inr (y # ys)))"

section \<open>The statement builder\<close>

definition dialectName :: "SqlDialect \<Rightarrow> string" where
  \<comment> \<open>the string a dialect is in the source\<close>
  "dialectName d =
     (case d of mysql \<Rightarrow> ''mysql'' | postgresql \<Rightarrow> ''postgresql''
      | sqlite \<Rightarrow> ''sqlite'' | sqlserver \<Rightarrow> ''sqlserver'')"

definition includedColumns :: "ColumnConfig list \<Rightarrow> ColumnConfig list" where
  "includedColumns columns =
     filter (\<lambda>column. included column \<and> length (normalizeIdentifier (targetName column)) > 0)
       columns"

definition includedExtraColumns :: "ExtraColumnConfig list \<Rightarrow> ExtraColumnConfig list" where
  "includedExtraColumns extraColumns =
     filter (\<lambda>column. extraInclude column
                \<and> length (normalizeIdentifier (extraTargetName column)) > 0)
       extraColumns"

definition filteredRows :: "cell list list \<Rightarrow> cell list list" where
  "filteredRows rows =
     filter (\<lambda>row. list_ex (\<lambda>cell. cell \<noteq> CNull \<and> cell \<noteq> CUndefined
                                \<and> trim (cellToString cell) \<noteq> []) row)
       rows"

definition tableRef :: "GeneratorOptions \<Rightarrow> string" where
  "tableRef options =
     (let cleanTable = normalizeIdentifier (tableName options);
          schema = normalizeIdentifier (schemaName options)
      in if schema \<noteq> []
         then quoteIdentifier schema (dialect options) @ ''.''
              @ quoteIdentifier cleanTable (dialect options)
         else quoteIdentifier cleanTable (dialect options))"

definition mappedColumns :: "ColumnConfig list \<Rightarrow> GeneratorOptions \<Rightarrow> string list" where
  "mappedColumns columns options =
     map (\<lambda>column. quoteIdentifier (targetName column) (dialect options))
       (includedColumns columns)"

definition customColumns :: "ExtraColumnConfig list \<Rightarrow> GeneratorOptions \<Rightarrow> string list" where
  "customColumns extraColumns options =
     map (\<lambda>column. quoteIdentifier (extraTargetName column) (dialect options))
       (includedExtraColumns extraColumns)"

definition columnList ::
  "ColumnConfig list \<Rightarrow> ExtraColumnConfig list \<Rightarrow> GeneratorOptions \<Rightarrow> string" where
  "columnList columns extraColumns options =
     join '', '' (mappedColumns columns options @ customColumns extraColumns options)"

definition rowValue ::
  "ColumnConfig list \<Rightarrow> ExtraColumnConfig list \<Rightarrow> GeneratorOptions \<Rightarrow> cell list
     \<Rightarrow> error + string" where
  \<comment> \<open>the tuple of one row: the function mapped over \<^verbatim>\<open>filteredRows\<close>\<close>
  "rowValue columns extraColumns options row =
     (case mapResult (\<lambda>column. toSqlLiteral (arrayGet row (sourceIndex column)) options)
             (includedColumns columns) of
        Inl e \<Rightarrow> Inl e
      | Inr sourceValues \<Rightarrow>
          (case mapResult (\<lambda>column. extraValueToSql column options)
                  (includedExtraColumns extraColumns) of
             Inl e \<Rightarrow> Inl e
           | Inr extraValues \<Rightarrow> Inr (''('' @ join '', '' (sourceValues @ extraValues) @ '')'')))"

definition rowValues ::
  "cell list list \<Rightarrow> ColumnConfig list \<Rightarrow> ExtraColumnConfig list \<Rightarrow> GeneratorOptions
     \<Rightarrow> error + string list" where
  "rowValues rows columns extraColumns options =
     mapResult (rowValue columns extraColumns options) (filteredRows rows)"

definition statementOf ::
  "ColumnConfig list \<Rightarrow> ExtraColumnConfig list \<Rightarrow> GeneratorOptions \<Rightarrow> string list \<Rightarrow> string" where
  \<comment> \<open>the INSERT statement of one chunk of tuples\<close>
  "statementOf columns extraColumns options chunk =
     (let useColumnList = (includeColumnList options
                           \<or> length (includedExtraColumns extraColumns) > 0)
      in if useColumnList
         then ''INSERT INTO '' @ tableRef options @ '' (''
              @ columnList columns extraColumns options @ '')'' @ [CHR 0x0A] @ ''VALUES''
              @ [CHR 0x0A] @ join ('','' @ [CHR 0x0A]) chunk @ '';''
         else ''INSERT INTO '' @ tableRef options @ [CHR 0x0A] @ ''VALUES''
              @ [CHR 0x0A] @ join ('','' @ [CHR 0x0A]) chunk @ '';'')"

definition scriptText ::
  "cell list list \<Rightarrow> ColumnConfig list \<Rightarrow> ExtraColumnConfig list \<Rightarrow> GeneratorOptions
     \<Rightarrow> string list list \<Rightarrow> string" where
  \<comment> \<open>the text returned at the end: the comment lines, an empty line, the statements\<close>
  "scriptText rows columns extraColumns options chunks =
     join [CHR 0x0A]
       [''-- Generated by RedCoconut SQL Builder'',
        ''-- Dialect: '' @ dialectName (dialect options),
        ''-- Rows: '' @ numberToString (Finite (of_nat (length (filteredRows rows)))),
        [],
        join [CHR 0x0A, CHR 0x0A] (map (statementOf columns extraColumns options) chunks)]"

definition buildInsertScript ::
  "cell list list \<Rightarrow> ColumnConfig list \<Rightarrow> ExtraColumnConfig list \<Rightarrow> GeneratorOptions
     \<Rightarrow> (error + string) option" where
  \<comment> \<open>\<open>None\<close>: the call does not return; \<open>Some (Inl e)\<close>: it throws \<open>e\<close>\<close>
  "buildInsertScript rows columns extraColumns options =
     (if normalizeIdentifier (tableName options) = [] then Some (Inr [])
      else if length (includedColumns columns) = 0
              \<and> length (includedExtraColumns extraColumns) = 0 then Some (Inr [])
      else if length (filteredRows rows) = 0 then Some (Inr [])
      else
        (case rowValues rows columns extraColumns options of
           Inl e \<Rightarrow> Some (Inl e)
         | Inr tuples \<Rightarrow>
             (case chunkArray tuples (mathMax (Finite 1) (rowsPerInsert options)) of
                None \<Rightarrow> None
              | Some chunks \<Rightarrow>
                  Some (Inr (scriptText rows columns extraColumns options chunks)))))"

section \<open>The example of the specification\<close>

text \<open>
  The rows \<^verbatim>\<open>[[1,"Ann"],[2,"Bea"]]\<close>, the columns \<^verbatim>\<open>id\<close> and \<^verbatim>\<open>name\<close> at the
  indices 0 and 1, and the options \<^verbatim>\<open>dialect: "sqlite"\<close>, \<^verbatim>\<open>rowsPerInsert: 1\<close>,
  \<^verbatim>\<open>includeColumnList: true\<close>, \<^verbatim>\<open>tableName: "t"\<close>, the others as in \<open>defaultOptions\<close>.
\<close>

definition exampleRows :: "cell list list" where
  "exampleRows = [[CNumber (Finite 1), CString ''Ann''], [CNumber (Finite 2), CString ''Bea'']]"

definition exampleColumns :: "ColumnConfig list" where
  "exampleColumns =
     [\<lparr>sourceIndex = Finite 0, sourceName = ''id'', targetName = ''id'', included = True\<rparr>,
      \<lparr>sourceIndex = Finite 1, sourceName = ''name'', targetName = ''name'', included = True\<rparr>]"

definition exampleOptions :: GeneratorOptions where
  "exampleOptions =
     defaultOptions\<lparr>dialect := sqlite, tableName := ''t'', rowsPerInsert := Finite 1\<rparr>"

definition exampleScript :: string where
  "exampleScript =
     ''-- Generated by RedCoconut SQL Builder'' @ [CHR 0x0A]
     @ ''-- Dialect: sqlite'' @ [CHR 0x0A]
     @ ''-- Rows: 2'' @ [CHR 0x0A]
     @ [CHR 0x0A]
     @ ''INSERT INTO `t` (`id`, `name`)'' @ [CHR 0x0A]
     @ ''VALUES'' @ [CHR 0x0A]
     @ ''(1, '' @ [CHR 0x27] @ ''Ann'' @ [CHR 0x27] @ '');'' @ [CHR 0x0A]
     @ [CHR 0x0A]
     @ ''INSERT INTO `t` (`id`, `name`)'' @ [CHR 0x0A]
     @ ''VALUES'' @ [CHR 0x0A]
     @ ''(2, '' @ [CHR 0x27] @ ''Bea'' @ [CHR 0x27] @ '');''"

section \<open>The specification's words\<close>

text \<open>
  The functions of this section are written from the specification's sentences, not
  from the source; the theorems compare the source's functions with them.
\<close>

function wordsOf :: "string \<Rightarrow> string list" where
  \<comment> \<open>the maximal runs of characters that are not white space, in order\<close>
  "wordsOf s =
     (case dropWhile isWhiteSpace s of
        [] \<Rightarrow> []
      | c # cs \<Rightarrow> takeWhile (\<lambda>x. \<not> isWhiteSpace x) (c # cs)
                 # wordsOf (dropWhile (\<lambda>x. \<not> isWhiteSpace x) (c # cs)))"
  by pat_completeness auto
termination
proof (relation "measure length", goal_cases)
  case 1
  show ?case by simp
next
  case (2 s c cs)
  have "length (dropWhile (\<lambda>x. \<not> isWhiteSpace x) (c # cs)) \<le> length cs"
    using 2 dropWhile_eq_Cons_conv [of isWhiteSpace s c cs]
    by (simp add: length_dropWhile_le)
  moreover have "length (c # cs) \<le> length s"
    using 2 length_dropWhile_le [of isWhiteSpace s] by simp
  ultimately show ?case by simp
qed

declare wordsOf.simps [simp del]

definition doubleEach :: "char \<Rightarrow> string \<Rightarrow> string" where
  \<comment> \<open>every occurrence of the character \<open>q\<close> written twice\<close>
  "doubleEach q s = concat (map (\<lambda>c. if c = q then [q, q] else [c]) s)"

definition sqlTimestamp :: "int \<Rightarrow> string" where
  \<comment> \<open>\<^verbatim>\<open>YYYY-MM-DD HH:MM:SS\<close> of a time value, in UTC, the milliseconds dropped\<close>
  "sqlTimestamp t =
     pad4 (yearFromTime t) @ ''-'' @ pad2 (monthFromTime t) @ ''-'' @ pad2 (dateFromTime t)
     @ '' '' @ pad2 (hourFromTime t) @ '':'' @ pad2 (minFromTime t) @ '':''
     @ pad2 (secFromTime t)"

definition booleanLiteral :: "SqlDialect \<Rightarrow> bool \<Rightarrow> string" where
  \<comment> \<open>TRUE and FALSE for postgresql, 1 and 0 for the other dialects\<close>
  "booleanLiteral d b =
     (case d of
        postgresql \<Rightarrow> (if b then ''TRUE'' else ''FALSE'')
      | _ \<Rightarrow> (if b then ''1'' else ''0''))"

definition stringLiteral :: "string \<Rightarrow> GeneratorOptions \<Rightarrow> string" where
  \<comment> \<open>rule 5 of the literal encoder: trimmed if \<open>trimStrings\<close>; NULL if then empty and
      \<open>emptyStringAsNull\<close>; NULL if its lower-case form is a null token; else quoted,
      with every single quote doubled\<close>
  "stringLiteral s options =
     (let t = (if trimStrings options then trim s else s) in
      if t = [] \<and> emptyStringAsNull options then ''NULL''
      else if toLowerCase t \<in> set (nullTokens options) then ''NULL''
      else [CHR 0x27] @ doubleEach (CHR 0x27) t @ [CHR 0x27])"

function batchesOf :: "nat \<Rightarrow> 'a list \<Rightarrow> 'a list list" where
  \<comment> \<open>consecutive groups of \<open>k\<close> elements, the last one of what is left\<close>
  "batchesOf k xs = (if k = 0 \<or> xs = [] then [] else take k xs # batchesOf k (drop k xs))"
  by pat_completeness auto
termination
  by (relation "measure (\<lambda>(k, xs). length xs)") auto

declare batchesOf.simps [simp del]

definition blankCell :: "cell \<Rightarrow> bool" where
  \<comment> \<open>null, undefined, or only white space when converted to a string\<close>
  "blankCell c \<longleftrightarrow>
     c = CNull \<or> c = CUndefined \<or> list_all isWhiteSpace (cellToString c)"

definition blankRow :: "cell list \<Rightarrow> bool" where
  "blankRow row \<longleftrightarrow> list_all blankCell row"

definition linesOf :: "string \<Rightarrow> string list" where
  \<comment> \<open>the lines of a text: the parts between its newline characters\<close>
  "linesOf s = foldr (\<lambda>c ls. if c = CHR 0x0A then [] # ls else (c # hd ls) # tl ls) s [[]]"

definition openQuote :: "SqlDialect \<Rightarrow> char" where
  "openQuote d = (case d of mysql \<Rightarrow> CHR ''`'' | sqlite \<Rightarrow> CHR ''`''
                  | sqlserver \<Rightarrow> CHR ''['' | postgresql \<Rightarrow> CHR 0x22)"

definition closeQuote :: "SqlDialect \<Rightarrow> char" where
  "closeQuote d = (case d of mysql \<Rightarrow> CHR ''`'' | sqlite \<Rightarrow> CHR ''`''
                   | sqlserver \<Rightarrow> CHR '']'' | postgresql \<Rightarrow> CHR 0x22)"

section \<open>Properties of the string functions\<close>

lemma replaceWhiteSpaceRuns_word:
  "\<forall>x\<in>set w. \<not> isWhiteSpace x \<Longrightarrow>
     replaceWhiteSpaceRuns rep (w @ r) = w @ replaceWhiteSpaceRuns rep r"
  by (induction w) auto

lemma replaceWhiteSpaceRuns_gap:
  "a \<noteq> [] \<Longrightarrow> \<forall>x\<in>set a. isWhiteSpace x \<Longrightarrow> dropWhile isWhiteSpace x = x \<Longrightarrow>
     replaceWhiteSpaceRuns rep (a @ x) = rep @ replaceWhiteSpaceRuns rep x"
  by (cases a) (auto simp: dropWhile_append2)

lemma wordsOf_Nil_iff: "wordsOf s = [] \<longleftrightarrow> (\<forall>x\<in>set s. isWhiteSpace x)"
proof (cases "dropWhile isWhiteSpace s")
  case Nil
  have "wordsOf s = []" by (subst wordsOf.simps) (simp only: Nil list.case)
  moreover have "\<forall>x\<in>set s. isWhiteSpace x" using Nil by simp
  ultimately show ?thesis by simp
next
  case (Cons c cs)
  have "wordsOf s \<noteq> []" by (subst wordsOf.simps) (simp only: Cons list.case, simp)
  moreover have "\<not> (\<forall>x\<in>set s. isWhiteSpace x)"
    using Cons by (metis dropWhile_eq_Nil_conv list.distinct(1))
  ultimately show ?thesis by simp
qed

lemma trimEnd_all_white: "\<forall>x\<in>set b. isWhiteSpace x \<Longrightarrow> trimEnd b = []"
  by (simp add: trimEnd_def)

lemma trimEnd_append_keep:
  "\<exists>x\<in>set b. \<not> isWhiteSpace x \<Longrightarrow> trimEnd (a @ b) = a @ trimEnd b"
  by (auto simp: trimEnd_def dropWhile_append1)

lemma trimEnd_word:
  assumes "w \<noteq> []" and "\<forall>x\<in>set w. \<not> isWhiteSpace x"
  shows "trimEnd (w @ r) = w @ trimEnd r"
proof (cases "\<forall>x\<in>set r. isWhiteSpace x")
  case True
  from assms have "\<not> isWhiteSpace (last w)" by simp
  with assms(1) have "dropWhile isWhiteSpace (rev w) = rev w"
    by (cases w rule: rev_cases) auto
  moreover have "dropWhile isWhiteSpace (rev r @ rev w) = dropWhile isWhiteSpace (rev w)"
    by (rule dropWhile_append2) (use True in auto)
  ultimately show ?thesis using True by (simp add: trimEnd_def)
next
  case False
  then show ?thesis by (simp add: trimEnd_append_keep)
qed

lemma trimEnd_keeps_start:
  assumes "dropWhile isWhiteSpace y = y"
  shows "dropWhile isWhiteSpace (trimEnd y) = trimEnd y"
proof (cases y)
  case Nil
  then show ?thesis by (simp add: trimEnd_def)
next
  case (Cons c cs)
  with assms have c: "\<not> isWhiteSpace c"
    using length_dropWhile_le [of isWhiteSpace cs] by (auto split: if_splits)
  have "trimEnd ([c] @ cs) = [c] @ trimEnd cs"
    using c by (intro trimEnd_word) auto
  then show ?thesis using c Cons by simp
qed

lemma trim_runs_words:
  "replaceWhiteSpaceRuns rep (trimEnd (dropWhile isWhiteSpace s)) = join rep (wordsOf s)"
proof (induction s rule: wordsOf.induct)
  case (1 s)
  show ?case
  proof (cases "dropWhile isWhiteSpace s")
    case Nil
    have "wordsOf s = []" by (subst wordsOf.simps) (simp only: Nil list.case)
    then show ?thesis by (simp only: Nil) (simp add: trimEnd_def)
  next
    case (Cons c cs)
    define w where "w = takeWhile (\<lambda>x. \<not> isWhiteSpace x) (c # cs)"
    define r where "r = dropWhile (\<lambda>x. \<not> isWhiteSpace x) (c # cs)"
    have c: "\<not> isWhiteSpace c" using Cons by (metis dropWhile_eq_Cons_conv)
    have t: "dropWhile isWhiteSpace s = w @ r" by (simp add: Cons w_def r_def)
    have w: "w \<noteq> []" "\<forall>x\<in>set w. \<not> isWhiteSpace x"
      using c by (auto simp: w_def dest: set_takeWhileD)
    have IH: "replaceWhiteSpaceRuns rep (trimEnd (dropWhile isWhiteSpace r)) = join rep (wordsOf r)"
      using 1 [OF Cons] by (simp add: r_def)
    have ws: "wordsOf s = w # wordsOf r"
      by (subst wordsOf.simps) (simp add: Cons w_def r_def)
    have lhs: "replaceWhiteSpaceRuns rep (trimEnd (dropWhile isWhiteSpace s))
                = w @ replaceWhiteSpaceRuns rep (trimEnd r)"
      by (simp add: t trimEnd_word [OF w] replaceWhiteSpaceRuns_word [OF w(2)])
    show ?thesis
    proof (cases "\<forall>x\<in>set r. isWhiteSpace x")
      case True
      then have "wordsOf r = []" by (simp add: wordsOf_Nil_iff)
      then show ?thesis using True by (simp add: lhs ws trimEnd_all_white)
    next
      case False
      then have ne: "wordsOf r \<noteq> []" by (simp add: wordsOf_Nil_iff)
      have "r \<noteq> []" using False by auto
      then have "isWhiteSpace (hd r)" unfolding r_def by (metis hd_dropWhile)
      with \<open>r \<noteq> []\<close> have a: "takeWhile isWhiteSpace r \<noteq> []" by (cases r) auto
      have b: "\<exists>x\<in>set (dropWhile isWhiteSpace r). \<not> isWhiteSpace x"
        using False by (metis dropWhile_eq_Nil_conv hd_dropWhile list.set_sel(1))
      have "trimEnd r = takeWhile isWhiteSpace r @ trimEnd (dropWhile isWhiteSpace r)"
        using trimEnd_append_keep [OF b, of "takeWhile isWhiteSpace r"] by simp
      moreover have "replaceWhiteSpaceRuns rep
                       (takeWhile isWhiteSpace r @ trimEnd (dropWhile isWhiteSpace r))
           = rep @ replaceWhiteSpaceRuns rep (trimEnd (dropWhile isWhiteSpace r))"
        by (rule replaceWhiteSpaceRuns_gap [OF a])
           (auto dest: set_takeWhileD intro: trimEnd_keeps_start)
      ultimately show ?thesis using ne
        by (cases "wordsOf r") (simp_all add: lhs ws IH)
    qed
  qed
qed

lemma normalizeIdentifier_words: "normalizeIdentifier s = join ''_'' (wordsOf s)"
  by (simp add: normalizeIdentifier_def trim_def trimStart_def trim_runs_words)

lemma replaceAll_char: "replaceAll [q] [q, q] s = doubleEach q s"
  by (induction s) (auto simp: doubleEach_def)

section \<open>Identifier quoting\<close>

text \<open>
  C5. For every identifier and dialect, \<open>quoteIdentifier\<close> first normalises: white space
  is removed at both ends and every run of white space inside becomes one underscore,
  so that the normalised name is the words of the identifier joined by underscores. An
  empty normalised name gives the empty string. Any other is wrapped in backticks with
  embedded backticks doubled (mysql, sqlite), in square brackets with the closing
  bracket doubled (sqlserver), or in double quotes with embedded double quotes doubled
  (postgresql).
\<close>

theorem quoteIdentifier_normalizes_then_quotes:
  "normalizeIdentifier ident = join ''_'' (wordsOf ident)
   \<and> quoteIdentifier ident d =
       (if join ''_'' (wordsOf ident) = [] then []
        else [openQuote d] @ doubleEach (closeQuote d) (join ''_'' (wordsOf ident))
             @ [closeQuote d])"
  by (cases d)
     (simp_all add: quoteIdentifier_def Let_def normalizeIdentifier_words replaceAll_char
        openQuote_def closeQuote_def)

lemma wordsOf_example: "wordsOf '' a]b   c`d '' = [''a]b'', ''c`d'']"
  by (simp add: wordsOf.simps isWhiteSpace_def)

theorem quoteIdentifier_normalizes_then_quotes_witness:
  "quoteIdentifier '' a]b   c`d '' sqlserver = ''[a]]b_c`d]''
   \<and> quoteIdentifier '' a]b   c`d '' mysql = ''`a]b_c``d`''
   \<and> quoteIdentifier [] postgresql = []"
  using quoteIdentifier_normalizes_then_quotes [of "'' a]b   c`d ''" sqlserver]
    quoteIdentifier_normalizes_then_quotes [of "'' a]b   c`d ''" mysql]
    quoteIdentifier_normalizes_then_quotes [of "[]" postgresql]
  by (simp add: wordsOf.simps isWhiteSpace_def doubleEach_def openQuote_def closeQuote_def)

section \<open>Properties of printed numbers and dates\<close>

lemma digitChar_cases: "digitChar d \<in> set ''0123456789''"
proof -
  have "0 \<le> d mod 10" "d mod 10 < 10" by simp_all
  then have "d mod 10 = 0 \<or> d mod 10 = 1 \<or> d mod 10 = 2 \<or> d mod 10 = 3 \<or> d mod 10 = 4
      \<or> d mod 10 = 5 \<or> d mod 10 = 6 \<or> d mod 10 = 7 \<or> d mod 10 = 8 \<or> d mod 10 = 9"
    by arith
  then show ?thesis
    by (auto simp: digitChar_def)
qed

lemma digitChar_neq_T [simp]: "digitChar d \<noteq> CHR ''T''"
  using digitChar_cases [of d] by auto

lemma digitChar_not_white [simp]: "\<not> isWhiteSpace (digitChar d)"
  using digitChar_cases [of d] by (auto simp: isWhiteSpace_def)

lemma decimalDigits_Cons: "\<exists>d cs. decimalDigits n = digitChar d # cs"
proof (induction n rule: decimalDigits.induct)
  case (1 n)
  show ?case
  proof (cases "n < 10")
    case True
    then show ?thesis by (subst decimalDigits.simps) auto
  next
    case False
    with 1 obtain d cs where "decimalDigits (n div 10) = digitChar d # cs" by auto
    with False show ?thesis by (subst decimalDigits.simps) auto
  qed
qed

lemma numberLayout_Cons: "\<exists>d' cs'. numberLayout (decimalDigits s) k n = digitChar d' # cs'"
proof -
  obtain d cs where ds: "decimalDigits s = digitChar d # cs"
    using decimalDigits_Cons by blast
  have z: "CHR ''0'' = digitChar 0" by (simp add: digitChar_def)
  have "0 < n \<Longrightarrow> take (nat n) (decimalDigits s) = digitChar d # take (nat n - 1) cs"
    by (simp add: ds take_Cons')
  then show ?thesis
    unfolding numberLayout_def Let_def
    by (auto simp: ds z)
qed

lemma positiveToString_Cons: "\<exists>d cs. positiveToString x = digitChar d # cs"
  unfolding positiveToString_def Let_def
  by (simp split: prod.splits add: numberLayout_Cons)

lemma numberToString_finite_not_NULL: "numberToString (Finite q) \<noteq> ''NULL''"
proof -
  obtain d cs where "positiveToString \<bar>q\<bar> = digitChar d # cs"
    using positiveToString_Cons by blast
  moreover have "digitChar d \<noteq> CHR ''N''" using digitChar_cases [of d] by auto
  ultimately show ?thesis
    by (auto simp: numberToString_def abs_if split: if_splits)
qed

lemma trim_Nil_iff: "trim s = [] \<longleftrightarrow> (\<forall>x\<in>set s. isWhiteSpace x)"
proof
  assume "trim s = []"
  then have "\<forall>x\<in>set (dropWhile isWhiteSpace s). isWhiteSpace x"
    by (simp add: trim_def trimStart_def trimEnd_def)
  then have "dropWhile isWhiteSpace s = []"
    by (metis hd_dropWhile list.set_sel(1))
  then show "\<forall>x\<in>set s. isWhiteSpace x" by simp
next
  assume "\<forall>x\<in>set s. isWhiteSpace x"
  then have d: "dropWhile isWhiteSpace s = []" by simp
  show "trim s = []"
    by (simp only: trim_def trimStart_def trimEnd_def d rev.simps dropWhile.simps)
qed

lemma trim_Cons_not_white: "\<not> isWhiteSpace c \<Longrightarrow> trim (c # cs) \<noteq> []"
  by (auto simp: trim_Nil_iff)

lemma numberToString_Cons: "\<exists>c cs. numberToString n = c # cs \<and> \<not> isWhiteSpace c"
proof (cases n)
  case (Finite q)
  obtain d cs where p: "positiveToString \<bar>q\<bar> = digitChar d # cs"
    using positiveToString_Cons by blast
  have w: "\<not> isWhiteSpace CHR ''0''" "\<not> isWhiteSpace CHR ''-''"
    by (simp_all add: isWhiteSpace_def)
  consider "q = 0" | "q < 0" | "0 < q" by linarith
  then show ?thesis
  proof cases
    case 1
    then show ?thesis using w by (simp add: Finite numberToString_def)
  next
    case 2
    then show ?thesis using w by (simp add: Finite numberToString_def)
  next
    case 3
    then show ?thesis using p by (simp add: Finite numberToString_def)
  qed
qed (simp_all add: numberToString_def isWhiteSpace_def)

lemma numberToString_not_blank: "trim (numberToString n) \<noteq> []"
  using numberToString_Cons [of n] trim_Cons_not_white by metis

lemma dateToString_not_blank: "trim (dateToString d) \<noteq> []"
proof (cases d)
  case (TimeValue t)
  define wd where
    "wd = [''Sun'', ''Mon'', ''Tue'', ''Wed'', ''Thu'', ''Fri'', ''Sat''] ! nat (weekDay t)"
  have "0 \<le> weekDay t" "weekDay t < 7" by (simp_all add: weekDay_def)
  then have "weekDay t = 0 \<or> weekDay t = 1 \<or> weekDay t = 2 \<or> weekDay t = 3
      \<or> weekDay t = 4 \<or> weekDay t = 5 \<or> weekDay t = 6"
    by arith
  then have "\<exists>x\<in>set wd. \<not> isWhiteSpace x"
    unfolding wd_def by (elim disjE) (simp_all add: isWhiteSpace_def)
  then obtain x where x: "x \<in> set wd" "\<not> isWhiteSpace x" by blast
  have "x \<in> set (dateToString d)"
    unfolding TimeValue dateToString_def jsdate.case wd_def [symmetric] using x(1) by simp
  with x(2) show ?thesis unfolding trim_Nil_iff by blast
next
  case InvalidDate
  then show ?thesis by (simp add: dateToString_def trim_Nil_iff isWhiteSpace_def)
qed

section \<open>Rules of the literal encoder\<close>

lemma replaceFirst_char:
  "p \<notin> set pre \<Longrightarrow> replaceFirst [p] rep (pre @ p # post) = pre @ rep @ post"
  by (induction pre) auto

lemma sliceString_prefix: "length a = n \<Longrightarrow> sliceString (a @ b) 0 (int n) = a"
  by (simp add: sliceString_def)

lemma timestamp_of_toISOString:
  assumes "0 \<le> yearFromTime t" "yearFromTime t \<le> 9999"
  shows "toSqlLiteral (CDate (TimeValue t)) options
           = Inr ([CHR 0x27] @ sqlTimestamp t @ [CHR 0x27])"
proof -
  define day where
    "day = pad4 (yearFromTime t) @ ''-'' @ pad2 (monthFromTime t) @ ''-'' @ pad2 (dateFromTime t)"
  define time where
    "time = pad2 (hourFromTime t) @ '':'' @ pad2 (minFromTime t) @ '':'' @ pad2 (secFromTime t)"
  define rest where "rest = ''.'' @ pad3 (msFromTime t) @ ''Z''"
  have iso: "toISOString (TimeValue t) = Inr (day @ CHR ''T'' # (time @ rest))"
    using assms by (simp add: toISOString_def isoYear_def day_def time_def rest_def)
  have "CHR ''T'' \<notin> set day"
    by (simp add: day_def pad4_def pad2_def digitChar_neq_T [symmetric])
  then have "replaceFirst ''T'' '' '' (day @ CHR ''T'' # (time @ rest)) = day @ '' '' @ (time @ rest)"
    by (rule replaceFirst_char)
  moreover have "length (day @ '' '' @ time) = 19"
    by (simp add: day_def time_def pad4_def pad2_def)
  then have "sliceString (day @ '' '' @ (time @ rest)) 0 19 = day @ '' '' @ time"
    using sliceString_prefix [of "day @ '' '' @ time" 19 rest] by simp
  moreover have "sqlTimestamp t = day @ '' '' @ time"
    by (simp add: sqlTimestamp_def day_def time_def)
  ultimately show ?thesis
    by (simp add: toSqlLiteral_def iso)
qed

lemma stringToSqlLiteral_stringLiteral:
  "stringToSqlLiteral s options = stringLiteral s options"
  by (auto simp: stringToSqlLiteral_def stringLiteral_def Let_def list_ex_iff replaceAll_char)

lemma booleanToSql_booleanLiteral:
  "booleanToSql b options = booleanLiteral (dialect options) b"
  by (cases "dialect options") (simp_all add: booleanToSql_def booleanLiteral_def)

text \<open>
  C1. As the claim states it, every date yields \<^verbatim>\<open>'YYYY-MM-DD HH:MM:SS'\<close>. The encoder
  cuts the first 19 characters of \<^verbatim>\<open>toISOString()\<close>, whose year has a sign and six
  digits outside 0 to 9999: the first instant of the year 10000 yields
  \<^verbatim>\<open>'+010000-01-01 00:00'\<close>. The same call throws on an invalid Date.
\<close>

theorem toSqlLiteral_date_counterexample:
  "toSqlLiteral (CDate (TimeValue 253402300800000)) defaultOptions
     = Inr ([CHR 0x27] @ ''+010000-01-01 00:00'' @ [CHR 0x27])
   \<and> toSqlLiteral (CDate InvalidDate) defaultOptions = Inl RangeError"
  by code_simp

text \<open>
  C1, amended. For every cell value and options the literal encoder applies its rules
  in this order: null and undefined yield NULL; a valid date whose UTC year is from 0
  to 9999 yields the quoted \<^verbatim>\<open>'YYYY-MM-DD HH:MM:SS'\<close> of its time value in UTC, the
  milliseconds dropped; a finite number yields its decimal string and any other number
  NULL; a boolean yields the boolean literal of the dialect; a string is trimmed iff
  \<open>trimStrings\<close> is set, yields NULL if it is then empty and \<open>emptyStringAsNull\<close> is set,
  yields NULL if its lower-case form is one of the null tokens, and is otherwise
  single-quoted with every single quote in it doubled.
\<close>

theorem toSqlLiteral_rules:
  "toSqlLiteral CNull options = Inr ''NULL''
   \<and> toSqlLiteral CUndefined options = Inr ''NULL''
   \<and> (0 \<le> yearFromTime t \<and> yearFromTime t \<le> 9999 \<longrightarrow>
        toSqlLiteral (CDate (TimeValue t)) options
          = Inr ([CHR 0x27] @ sqlTimestamp t @ [CHR 0x27]))
   \<and> toSqlLiteral (CNumber n) options = Inr (if isFinite n then numberToString n else ''NULL'')
   \<and> toSqlLiteral (CBoolean b) options = Inr (booleanLiteral (dialect options) b)
   \<and> toSqlLiteral (CString s) options = Inr (stringLiteral s options)"
proof -
  have "toSqlLiteral (CString s) options = Inr (stringLiteral s options)"
    by (simp add: toSqlLiteral_def cellToString_def stringToSqlLiteral_stringLiteral)
  moreover have "toSqlLiteral (CBoolean b) options = Inr (booleanLiteral (dialect options) b)"
    by (simp add: toSqlLiteral_def booleanToSql_booleanLiteral)
  moreover have "toSqlLiteral CNull options = Inr ''NULL''"
    "toSqlLiteral CUndefined options = Inr ''NULL''"
    "toSqlLiteral (CNumber n) options = Inr (if isFinite n then numberToString n else ''NULL'')"
    by (simp_all add: toSqlLiteral_def)
  ultimately show ?thesis
    using timestamp_of_toISOString [of t options] by blast
qed

theorem toSqlLiteral_rules_witness:
  "toSqlLiteral (CDate (TimeValue 1700000000123)) (defaultOptions\<lparr>dialect := postgresql\<rparr>)
     = Inr ([CHR 0x27] @ ''2023-11-14 22:13:20'' @ [CHR 0x27])
   \<and> toSqlLiteral (CString (''O'' @ [CHR 0x27] @ ''Brien''))
         (defaultOptions\<lparr>dialect := postgresql\<rparr>)
     = Inr ([CHR 0x27] @ ''O'' @ [CHR 0x27, CHR 0x27] @ ''Brien'' @ [CHR 0x27])
   \<and> toSqlLiteral (CString ''   '') (defaultOptions\<lparr>dialect := postgresql\<rparr>) = Inr ''NULL''
   \<and> toSqlLiteral (CNumber NaN) (defaultOptions\<lparr>dialect := postgresql\<rparr>) = Inr ''NULL''"
proof -
  let ?o = "defaultOptions\<lparr>dialect := postgresql\<rparr>"
  have y: "0 \<le> yearFromTime 1700000000123 \<and> yearFromTime 1700000000123 \<le> 9999"
    by code_simp
  have ts: "sqlTimestamp 1700000000123 = ''2023-11-14 22:13:20''"
    by code_simp
  have obrien: "stringLiteral (''O'' @ [CHR 0x27] @ ''Brien'') ?o
                  = [CHR 0x27] @ ''O'' @ [CHR 0x27, CHR 0x27] @ ''Brien'' @ [CHR 0x27]"
    by code_simp
  have blank: "stringLiteral ''   '' ?o = ''NULL''"
    by code_simp
  have nan: "\<not> isFinite NaN"
    by (simp add: isFinite_def)
  show ?thesis
    using toSqlLiteral_rules [of ?o 1700000000123 NaN True "''O'' @ [CHR 0x27] @ ''Brien''"]
      toSqlLiteral_rules [of ?o 0 NaN True "''   ''"] y
    by (simp only: ts obrien blank nan if_False simp_thms)
qed

text \<open>
  C4. As the claim states it, a cell that equals a configured null token under
  case-insensitive comparison yields NULL for every configured token. The encoder
  compares the tokens as they are with the lower-case form of the cell, so a token
  with an upper-case letter matches nothing: with the token \<^verbatim>\<open>N/A\<close> the cell
  \<^verbatim>\<open>N/A\<close> is quoted.
\<close>

theorem null_token_counterexample:
  "toSqlLiteral (CString ''N/A'') (defaultOptions\<lparr>nullTokens := [''N/A'']\<rparr>)
     = Inr ([CHR 0x27] @ ''N/A'' @ [CHR 0x27])"
  by code_simp

text \<open>
  C4, amended. Null-token matching is case-insensitive in the cell: for every
  configured null token that is in lower case, and every string cell whose (optionally
  trimmed) value equals that token under case-insensitive comparison, the literal
  encoder emits NULL; so with the null tokens \<^verbatim>\<open>["null","n/a"]\<close>, \<^verbatim>\<open>"N/A"\<close> yields NULL.
\<close>

theorem null_token_case_insensitive:
  assumes "token \<in> set (nullTokens options)"
    and "toLowerCase token = token"
    and "toLowerCase (if trimStrings options then trim s else s) = toLowerCase token"
  shows "toSqlLiteral (CString s) options = Inr ''NULL''"
  using assms
  by (simp add: toSqlLiteral_def cellToString_def stringToSqlLiteral_def Let_def list_ex_iff)

theorem null_token_case_insensitive_witness:
  "toSqlLiteral (CString ''N/A'') (defaultOptions\<lparr>nullTokens := [''null'', ''n/a'']\<rparr>)
     = Inr ''NULL''"
proof (rule null_token_case_insensitive [where token = "''n/a''"])
  show "''n/a'' \<in> set (nullTokens (defaultOptions\<lparr>nullTokens := [''null'', ''n/a'']\<rparr>))"
    by simp
  show "toLowerCase ''n/a'' = ''n/a''"
    by code_simp
  show "toLowerCase (if trimStrings (defaultOptions\<lparr>nullTokens := [''null'', ''n/a'']\<rparr>)
                     then trim ''N/A'' else ''N/A'') = toLowerCase ''n/a''"
    by code_simp
qed

section \<open>Booleans\<close>

text \<open>
  C9. A boolean cell encodes as TRUE or FALSE under postgresql and as 1 or 0 under
  every other dialect. An extra column in boolean mode is true iff its value, trimmed
  and in lower case, is one of true, 1, yes, y, on, and encodes by the same rule: the
  value \<^verbatim>\<open>yes\<close> encodes as TRUE under postgresql and as 1 under mysql.
\<close>

theorem boolean_encoding:
  "toSqlLiteral (CBoolean b) options = Inr (booleanLiteral (dialect options) b)
   \<and> (extraMode column = ModeBoolean \<longrightarrow>
        extraValueToSql column options
          = Inr (booleanLiteral (dialect options)
                   (toLowerCase (trim (extraValue column))
                      \<in> {''true'', ''1'', ''yes'', ''y'', ''on''})))"
  by (simp add: toSqlLiteral_def extraValueToSql_def booleanToSql_booleanLiteral Let_def)

theorem boolean_encoding_witness:
  "extraValueToSql
     \<lparr>extraId = ''1'', extraTargetName = ''active'', extraInclude = True,
      extraMode = ModeBoolean, extraValue = ''yes''\<rparr>
     (defaultOptions\<lparr>dialect := postgresql\<rparr>) = Inr ''TRUE''
   \<and> extraValueToSql
     \<lparr>extraId = ''1'', extraTargetName = ''active'', extraInclude = True,
      extraMode = ModeBoolean, extraValue = ''yes''\<rparr>
     defaultOptions = Inr ''1''
   \<and> toSqlLiteral (CBoolean False) (defaultOptions\<lparr>dialect := postgresql\<rparr>) = Inr ''FALSE''
   \<and> toSqlLiteral (CBoolean False) defaultOptions = Inr ''0''"
proof -
  let ?c = "\<lparr>extraId = ''1'', extraTargetName = ''active'', extraInclude = True,
             extraMode = ModeBoolean, extraValue = ''yes''\<rparr>"
  have yes: "toLowerCase (trim ''yes'') = ''yes''"
    by code_simp
  have d: "dialect (defaultOptions\<lparr>dialect := postgresql\<rparr>) = postgresql"
    "dialect defaultOptions = mysql"
    by (simp_all add: defaultOptions_def)
  show ?thesis
    using boolean_encoding [of False "defaultOptions\<lparr>dialect := postgresql\<rparr>" ?c]
      boolean_encoding [of False defaultOptions ?c]
    by (simp add: yes d booleanLiteral_def)
qed


section \<open>Extra columns in number mode\<close>

text \<open>
  C10. For an extra column in number mode whose value is empty or only white space,
  \<open>extraValueToSql\<close> emits \<^verbatim>\<open>0\<close>, not NULL: \<^verbatim>\<open>Number("")\<close> is 0, which is finite.
  NULL is emitted only when the value parses to a number that is not finite, such as
  text that is no numeric literal.
\<close>

theorem number_mode_blank_is_zero:
  assumes "extraMode column = ModeNumber"
  shows "((\<forall>c\<in>set (extraValue column). isWhiteSpace c) \<longrightarrow>
            extraValueToSql column options = Inr ''0'')
         \<and> (extraValueToSql column options = Inr ''NULL''
              \<longleftrightarrow> \<not> isFinite (stringToNumber (extraValue column)))"
proof (intro conjI impI)
  assume "\<forall>c\<in>set (extraValue column). isWhiteSpace c"
  then have "trim (extraValue column) = []"
    by (simp add: trim_Nil_iff)
  then have "stringToNumber (extraValue column) = Finite 0"
    by (simp add: stringToNumber_def)
  then show "extraValueToSql column options = Inr ''0''"
    using assms by (simp add: extraValueToSql_def isFinite_def numberToString_def)
next
  show "extraValueToSql column options = Inr ''NULL''
          \<longleftrightarrow> \<not> isFinite (stringToNumber (extraValue column))"
  proof (cases "stringToNumber (extraValue column)")
    case (Finite q)
    then show ?thesis
      using assms numberToString_finite_not_NULL [of q]
      by (simp add: extraValueToSql_def isFinite_def)
  qed (use assms in \<open>simp_all add: extraValueToSql_def isFinite_def\<close>)
qed

theorem number_mode_blank_is_zero_witness:
  "extraValueToSql
     \<lparr>extraId = ''1'', extraTargetName = ''n'', extraInclude = True,
      extraMode = ModeNumber, extraValue = []\<rparr> defaultOptions = Inr ''0''
   \<and> extraValueToSql
     \<lparr>extraId = ''1'', extraTargetName = ''n'', extraInclude = True,
      extraMode = ModeNumber, extraValue = ''   ''\<rparr> defaultOptions = Inr ''0''
   \<and> extraValueToSql
     \<lparr>extraId = ''1'', extraTargetName = ''n'', extraInclude = True,
      extraMode = ModeNumber, extraValue = ''abc''\<rparr> defaultOptions = Inr ''NULL''"
proof -
  have abc: "stringToNumber ''abc'' = NaN"
    by code_simp
  have w: "isWhiteSpace CHR '' ''"
    by (simp add: isWhiteSpace_def)
  show ?thesis
    using number_mode_blank_is_zero
        [of "\<lparr>extraId = ''1'', extraTargetName = ''n'', extraInclude = True,
               extraMode = ModeNumber, extraValue = []\<rparr>" defaultOptions]
      number_mode_blank_is_zero
        [of "\<lparr>extraId = ''1'', extraTargetName = ''n'', extraInclude = True,
               extraMode = ModeNumber, extraValue = ''   ''\<rparr>" defaultOptions]
      number_mode_blank_is_zero
        [of "\<lparr>extraId = ''1'', extraTargetName = ''n'', extraInclude = True,
               extraMode = ModeNumber, extraValue = ''abc''\<rparr>" defaultOptions]
    by (simp add: abc w isFinite_def)
qed

section \<open>Properties of rounding\<close>

lemma div_lower: "0 < (b::int) \<Longrightarrow> b * (n div b) \<le> n"
  using mult_div_mod_eq [of b n] pos_mod_sign [of b n] by linarith

lemma div_upper: "0 < (b::int) \<Longrightarrow> n < b * (n div b) + b"
  using mult_div_mod_eq [of b n] pos_mod_bound [of b n] by linarith

lemma digitCount_bounds:
  "1 < b \<Longrightarrow> 0 < n \<Longrightarrow> \<exists>k. digitCount b n = Suc k \<and> b ^ k \<le> n \<and> n < b ^ Suc k"
proof (induction b n rule: digitCount.induct)
  case (1 b n)
  have b: "0 < b" using 1(2) by simp
  show ?case
  proof (cases "n div b = 0")
    case True
    then have "n < b" using div_upper [OF b, of n] by simp
    moreover have "digitCount b n = Suc 0"
      using 1(2,3) True by (subst digitCount.simps, subst digitCount.simps) simp
    ultimately show ?thesis using 1(3) by auto
  next
    case False
    have "0 \<le> n div b" using b 1(3) by (simp add: pos_imp_zdiv_nonneg_iff)
    with False have pos: "0 < n div b" by simp
    from 1(1) 1(2,3) pos
    obtain k where k: "digitCount b (n div b) = Suc k" "b ^ k \<le> n div b" "n div b < b ^ Suc k"
      by auto
    have "digitCount b n = Suc (Suc k)"
      using 1(2,3) k(1) by (subst digitCount.simps) simp
    moreover have "b ^ Suc k \<le> n"
    proof -
      have "b * b ^ k \<le> b * (n div b)" using k(2) b by (simp add: mult_left_mono)
      also have "\<dots> \<le> n" by (rule div_lower [OF b])
      finally show ?thesis by simp
    qed
    moreover have "n < b ^ Suc (Suc k)"
    proof -
      have "n div b + 1 \<le> b ^ Suc k" using k(3) by simp
      then have "b * (n div b + 1) \<le> b * b ^ Suc k" using b by (simp only: mult_left_mono)
      moreover have "n < b * (n div b + 1)"
        using div_upper [OF b, of n] by (simp add: distrib_left)
      ultimately show ?thesis by simp
    qed
    ultimately show ?thesis by blast
  qed
qed

lemma floorLog2_ge_one:
  assumes "1 \<le> a"
  shows "\<exists>k::nat. floorLog 2 a = int k \<and> 2 ^ k \<le> a \<and> a < 2 ^ Suc k"
proof -
  have "0 < \<lfloor>a\<rfloor>" using assms by simp
  then obtain k where k: "digitCount 2 \<lfloor>a\<rfloor> = Suc k" "2 ^ k \<le> \<lfloor>a\<rfloor>" "\<lfloor>a\<rfloor> < 2 ^ Suc k"
    using digitCount_bounds [of 2 "\<lfloor>a\<rfloor>"] by auto
  have "floorLog 2 a = int k" using assms k(1) by (simp add: floorLog_def)
  moreover have "(2::rat) ^ k \<le> a"
  proof -
    have "of_int (2 ^ k) \<le> (of_int \<lfloor>a\<rfloor> :: rat)" using k(2) by (simp only: of_int_le_iff)
    also have "\<dots> \<le> a" by simp
    finally show ?thesis by simp
  qed
  moreover have "a < 2 ^ Suc k"
  proof -
    have "\<lfloor>a\<rfloor> + 1 \<le> 2 ^ Suc k" using k(3) by simp
    then have "(of_int (\<lfloor>a\<rfloor> + 1) :: rat) \<le> of_int (2 ^ Suc k)" by (simp only: of_int_le_iff)
    moreover have "a < of_int (\<lfloor>a\<rfloor> + 1)" by linarith
    ultimately show ?thesis by simp
  qed
  ultimately show ?thesis by blast
qed

lemma roundHalfEven_of_int: "roundHalfEven (of_int z) = z"
  by (simp add: roundHalfEven_def)

lemma roundHalfEven_ge: "of_int z \<le> x \<Longrightarrow> z \<le> roundHalfEven x"
proof -
  assume "of_int z \<le> x"
  then have "z \<le> \<lfloor>x\<rfloor>" by (simp add: le_floor_iff)
  then show ?thesis by (auto simp: roundHalfEven_def Let_def)
qed


lemma pow2_nat: "pow2 (int k) = 2 ^ k"
  by (simp add: pow2_def)

lemma pow2_pos: "0 < pow2 e"
  by (simp add: pow2_def)

lemma pow2_diff:
  "pow2 (int k - int j) = 2 ^ k / 2 ^ j"
proof (cases "j \<le> k")
  case True
  then have "pow2 (int k - int j) = 2 ^ (k - j)"
    by (simp add: pow2_def nat_diff_distrib')
  then show ?thesis using True by (simp add: power_diff)
next
  case False
  then have "pow2 (int k - int j) = 1 / 2 ^ (j - k)"
    by (simp add: pow2_def nat_diff_distrib')
  moreover have "(2::rat) ^ j = 2 ^ (j - k) * 2 ^ k"
    using False by (simp flip: power_add)
  ultimately show ?thesis by simp
qed

text \<open>Rounding a number that is at least 1: the exponent is its binary logarithm.\<close>

lemma roundToDouble_ge_one:
  assumes "1 \<le> q"
  obtains k :: nat where "2 ^ k \<le> q" "q < 2 ^ Suc k"
    "roundToDouble q =
       (if 1024 \<le> int k \<or> (int k = 1023 \<and> 2 ^ 53 \<le> roundHalfEven (q / pow2 (int k - 52)))
        then PosInfinity
        else Finite (of_int (roundHalfEven (q / pow2 (int k - 52))) * pow2 (int k - 52)))"
proof -
  obtain k :: nat where k: "floorLog 2 q = int k" "2 ^ k \<le> q" "q < 2 ^ Suc k"
    using floorLog2_ge_one [OF assms] by blast
  have a: "\<bar>q\<bar> = q" "(q = 0) = False" "(q < 0) = False" using assms by simp_all
  have e: "max (int k) (- 1022) = int k" by simp
  have "roundToDouble q =
       (if 1024 \<le> int k \<or> (int k = 1023 \<and> 2 ^ 53 \<le> roundHalfEven (q / pow2 (int k - 52)))
        then PosInfinity
        else Finite (of_int (roundHalfEven (q / pow2 (int k - 52))) * pow2 (int k - 52)))"
    by (simp only: roundToDouble_def Let_def a k(1) e if_False)
  with k(2,3) show ?thesis using that by blast
qed

lemma roundToDouble_lower:
  assumes "1 \<le> z" "z \<le> 2 ^ 53" "of_int z \<le> q"
  shows "roundToDouble q = PosInfinity \<or> (\<exists>r. roundToDouble q = Finite r \<and> of_int z \<le> r)"
proof -
  have "(1::rat) \<le> of_int z" using assms(1) by simp
  with assms(3) have "1 \<le> q" by linarith
  then obtain k :: nat where k: "2 ^ k \<le> q" "q < 2 ^ Suc k"
    "roundToDouble q =
       (if 1024 \<le> int k \<or> (int k = 1023 \<and> 2 ^ 53 \<le> roundHalfEven (q / pow2 (int k - 52)))
        then PosInfinity
        else Finite (of_int (roundHalfEven (q / pow2 (int k - 52))) * pow2 (int k - 52)))"
    by (rule roundToDouble_ge_one)
  define u where "u = pow2 (int k - 52)"
  define m where "m = roundHalfEven (q / u)"
  have u: "0 < u" "u = 2 ^ k / 2 ^ 52"
    using pow2_pos pow2_diff [of k 52] by (simp_all add: u_def)
  have "of_int z \<le> of_int m * u"
  proof (cases "k \<le> 52")
    case True
    have "(2::rat) ^ (52 - k) = 2 ^ 52 / 2 ^ k"
      using True by (simp add: power_diff)
    moreover have "1 / u = 2 ^ 52 / 2 ^ k" unfolding u(2) by simp
    ultimately have iu: "1 / u = 2 ^ (52 - k)" by simp
    have "of_int z / u = of_int z * (1 / u)" by simp
    also have "\<dots> = of_int (z * 2 ^ (52 - k))" unfolding iu by simp
    finally have zu: "of_int (z * 2 ^ (52 - k)) = of_int z / u" by simp
    have "of_int z / u \<le> q / u"
      using assms(3) u(1) by (simp only: divide_right_mono less_imp_le)
    then have "of_int (z * 2 ^ (52 - k)) \<le> q / u"
      by (simp only: zu)
    then have "z * 2 ^ (52 - k) \<le> m"
      unfolding m_def by (rule roundHalfEven_ge)
    then have "(of_int (z * 2 ^ (52 - k)) :: rat) \<le> of_int m" by (simp only: of_int_le_iff)
    then have "of_int (z * 2 ^ (52 - k)) * u \<le> of_int m * u"
      using u(1) by (simp only: mult_right_mono less_imp_le)
    moreover have "u \<noteq> 0" using u(1) by simp
    then have "of_int z / u * u = of_int z" by simp
    ultimately show ?thesis by (simp only: zu)
  next
    case False
    have uk: "2 ^ 52 * u = 2 ^ k" unfolding u(2) by simp
    have "(of_int (2 ^ 52) :: rat) = 2 ^ 52 * u / u" using u(1) by simp
    also have "\<dots> \<le> q / u" unfolding uk using k(1) u(1) by (simp only: divide_right_mono less_imp_le)
    finally have "2 ^ 52 \<le> m" unfolding m_def by (rule roundHalfEven_ge)
    then have "(of_int (2 ^ 52) :: rat) \<le> of_int m" by (simp only: of_int_le_iff)
    then have "of_int (2 ^ 52) * u \<le> of_int m * u"
      using u(1) by (simp only: mult_right_mono less_imp_le)
    then have "(2::rat) ^ k \<le> of_int m * u" using uk by simp
    moreover have "(2::rat) ^ 53 \<le> 2 ^ k" using False by (intro power_increasing) simp_all
    moreover have "(of_int z :: rat) \<le> of_int (2 ^ 53)" using assms(2) by (simp only: of_int_le_iff)
    ultimately show ?thesis by simp
  qed
  then show ?thesis
    unfolding k(3) u_def [symmetric] m_def [symmetric] by auto
qed


lemma roundToDouble_of_int:
  assumes "0 \<le> n" "n \<le> 2 ^ 53"
  shows "roundToDouble (of_int n) = Finite (of_int n)"
proof (cases "n = 0")
  case True
  then show ?thesis by (simp add: roundToDouble_def)
next
  case False
  define q :: rat where "q = of_int n"
  have "1 \<le> n" using assms(1) False by simp
  then have "1 \<le> q" by (simp add: q_def)
  then obtain k :: nat where k: "2 ^ k \<le> q" "q < 2 ^ Suc k"
    "roundToDouble q =
       (if 1024 \<le> int k \<or> (int k = 1023 \<and> 2 ^ 53 \<le> roundHalfEven (q / pow2 (int k - 52)))
        then PosInfinity
        else Finite (of_int (roundHalfEven (q / pow2 (int k - 52))) * pow2 (int k - 52)))"
    by (rule roundToDouble_ge_one)
  define u where "u = pow2 (int k - 52)"
  have u: "u \<noteq> 0" "u = 2 ^ k / 2 ^ 52"
    using pow2_pos [of "int k - 52"] pow2_diff [of k 52] by (simp_all add: u_def)
  have "(of_int (2 ^ k) :: rat) \<le> of_int n" using k(1) by (simp add: q_def)
  then have "(2::int) ^ k \<le> n" by (simp only: of_int_le_iff)
  with assms(2) have "(2::int) ^ k \<le> 2 ^ 53" by linarith
  then have k53: "k \<le> 53" by (simp only: power_increasing_iff)
  have "\<exists>Z. q / u = of_int Z"
  proof (cases "k \<le> 52")
    case True
    have "(2::rat) ^ (52 - k) = 2 ^ 52 / 2 ^ k"
      using True by (simp add: power_diff)
    moreover have "1 / u = 2 ^ 52 / 2 ^ k" unfolding u(2) by simp
    ultimately have iu: "1 / u = 2 ^ (52 - k)" by simp
    have "q / u = q * (1 / u)" by simp
    also have "\<dots> = of_int (n * 2 ^ (52 - k))" unfolding iu q_def by simp
    finally show ?thesis by blast
  next
    case False
    with k53 have k: "k = 53" by simp
    with \<open>(2::int) ^ k \<le> n\<close> assms(2) have "n = 2 ^ 53" by simp
    then have "q / u = of_int (2 ^ 52)" unfolding u(2) q_def k by simp
    then show ?thesis by blast
  qed
  then obtain Z where Z: "q / u = of_int Z" by blast
  have "of_int Z * u = q" using Z u(1) by (metis nonzero_divide_eq_eq)
  moreover have "\<not> (1024 \<le> int k \<or> (int k = 1023 \<and> 2 ^ 53 \<le> roundHalfEven (q / u)))"
    using k53 by simp
  ultimately have "roundToDouble q = Finite q"
    unfolding k(3) u_def [symmetric] by (simp only: if_False Z roundHalfEven_of_int)
  then show ?thesis by (simp only: q_def)
qed

section \<open>Properties of chunkArray\<close>

lemma chunkLoop_stop:
  "\<not> jsLess i (Finite (of_nat (length items))) \<Longrightarrow> chunkLoop items s i acc = Some acc"
  by (subst chunkLoop.simps) simp

lemma relativeIndex_of_nat: "relativeIndex len (Finite (of_nat j)) = min j len"
  by (simp add: relativeIndex_def toIntegerOrInfinity_def)

lemma relativeIndex_beyond:
  assumes "i = PosInfinity \<or> (\<exists>r. i = Finite r \<and> of_nat len \<le> r)"
  shows "relativeIndex len i = len" and "\<not> jsLess i (Finite (of_nat len))"
proof -
  show "relativeIndex len i = len"
  proof (cases i)
    case (Finite r)
    with assms have r: "of_nat len \<le> r" by simp
    then have "0 \<le> r" by (metis of_nat_0_le_iff order_trans)
    moreover have "int len \<le> \<lfloor>r\<rfloor>" using r by (simp add: le_floor_iff)
    ultimately show ?thesis
      by (simp add: Finite relativeIndex_def toIntegerOrInfinity_def)
  qed (use assms in \<open>simp_all add: relativeIndex_def toIntegerOrInfinity_def\<close>)
  show "\<not> jsLess i (Finite (of_nat len))"
    using assms by (auto simp: jsLess_def)
qed

lemma batchesOf_Cons:
  "0 < k \<Longrightarrow> xs \<noteq> [] \<Longrightarrow> batchesOf k xs = take k xs # batchesOf k (drop k xs)"
  by (subst batchesOf.simps) simp

lemma batchesOf_Nil [simp]: "batchesOf k [] = []"
  by (subst batchesOf.simps) simp

lemma chunkLoop_integer_size:
  assumes "1 \<le> n" and "length items \<le> 2 ^ 53" and "j \<le> length items"
  shows "chunkLoop items (Finite (of_int n)) (Finite (of_nat j)) acc
           = Some (acc @ batchesOf (nat n) (drop j items))"
  using assms(3)
proof (induction "length items - j" arbitrary: j acc rule: less_induct)
  case less
  define len where "len = length items"
  show ?case
  proof (cases "j < len")
    case False
    then have "\<not> jsLess (Finite (of_nat j)) (Finite (of_nat (length items)))"
      by (simp add: jsLess_def len_def)
    then show ?thesis using False by (simp add: chunkLoop_stop len_def)
  next
    case True
    define i' where "i' = jsAdd (Finite (of_nat j)) (Finite (of_int n))"
    define rest where "rest = drop j items"
    have rest: "rest \<noteq> []" "length rest = len - j"
      using True by (simp_all add: rest_def len_def)
    have n: "0 < nat n" using assms(1) by simp
    have i'_def': "i' = roundToDouble (of_int (int j + n))"
      by (simp add: i'_def jsAdd_def)
    have step: "relativeIndex len i' = min (j + nat n) len
        \<and> (j + nat n < len \<longrightarrow> i' = Finite (of_nat (j + nat n)))
        \<and> (len \<le> j + nat n \<longrightarrow> \<not> jsLess i' (Finite (of_nat len)))"
    proof (cases "int j + n \<le> 2 ^ 53")
      case True
      have "i' = Finite (of_int (int j + n))"
        unfolding i'_def' using True assms(1) by (intro roundToDouble_of_int) simp_all
      moreover have "int j + n = int (j + nat n)" using assms(1) by simp
      ultimately have eq: "i' = Finite (of_nat (j + nat n))"
        by (simp only: of_int_of_nat_eq)
      have "relativeIndex len i' = min (j + nat n) len"
        unfolding eq by (rule relativeIndex_of_nat)
      moreover have "len \<le> j + nat n \<longrightarrow> \<not> jsLess i' (Finite (of_nat len))"
        unfolding eq by (simp add: jsLess_def del: of_nat_add)
      ultimately show ?thesis using eq by blast
    next
      case False
      then have "2 ^ 53 \<le> int j + n" by simp
      then have big: "of_int (2 ^ 53) \<le> (of_int (int j + n) :: rat)"
        by (simp only: of_int_le_iff)
      have "i' = PosInfinity \<or> (\<exists>r. i' = Finite r \<and> of_int (2 ^ 53) \<le> r)"
        unfolding i'_def' by (rule roundToDouble_lower [OF _ _ big]) simp_all
      moreover have "(of_nat len :: rat) \<le> of_int (2 ^ 53)"
        using assms(2) by (simp add: len_def)
      ultimately have beyond: "i' = PosInfinity \<or> (\<exists>r. i' = Finite r \<and> of_nat len \<le> r)"
        by (metis order_trans)
      have "int len \<le> 2 ^ 53" using assms(2) by (simp add: len_def)
      with False have "len < j + nat n" by linarith
      then show ?thesis
        using relativeIndex_beyond [OF beyond] by simp
    qed
    have slice: "arraySlice items (Finite (of_nat j)) i' = take (nat n) rest"
    proof -
      have "arraySlice items (Finite (of_nat j)) i' = take (min (j + nat n) len - j) rest"
        using True step by (simp add: arraySlice_def Let_def relativeIndex_of_nat len_def rest_def)
      also have "min (j + nat n) len - j = min (nat n) (length rest)"
        using True rest(2) by simp
      finally show ?thesis by (simp add: min_def)
    qed
    have "chunkLoop items (Finite (of_int n)) (Finite (of_nat j)) acc
            = chunkLoop items (Finite (of_int n)) i' (acc @ [take (nat n) rest])"
      using True by (subst chunkLoop.simps) (simp add: jsLess_def len_def i'_def [symmetric] slice)
    also have "\<dots> = Some ((acc @ [take (nat n) rest]) @ batchesOf (nat n) (drop (j + nat n) items))"
    proof (cases "j + nat n < len")
      case True
      then have "i' = Finite (of_nat (j + nat n))" using step by simp
      moreover have "length items - (j + nat n) < length items - j"
        using True n by (simp add: len_def)
      ultimately show ?thesis
        using less(1) [of "j + nat n"] True by (simp add: len_def)
    next
      case False
      then have "\<not> jsLess i' (Finite (of_nat (length items)))" using step by (simp add: len_def)
      moreover have "drop (j + nat n) items = []" using False by (simp add: len_def)
      ultimately show ?thesis by (simp add: chunkLoop_stop)
    qed
    also have "drop (j + nat n) items = drop (nat n) rest"
      by (simp add: rest_def add.commute)
    finally show ?thesis
      using batchesOf_Cons [OF n rest(1)] by (simp add: rest_def)
  qed
qed

section \<open>Properties of the statement builder\<close>

lemma example_tuples:
  "rowValues exampleRows exampleColumns [] exampleOptions
     = Inr [''(1, '' @ [CHR 0x27] @ ''Ann'' @ [CHR 0x27] @ '')'',
            ''(2, '' @ [CHR 0x27] @ ''Bea'' @ [CHR 0x27] @ '')'']"
  by code_simp

lemma example_script:
  "buildInsertScript exampleRows exampleColumns [] exampleOptions = Some (Inr exampleScript)"
  by code_simp

lemma blankCell_iff:
  "blankCell c \<longleftrightarrow> \<not> (c \<noteq> CNull \<and> c \<noteq> CUndefined \<and> trim (cellToString c) \<noteq> [])"
  by (auto simp: blankCell_def trim_Nil_iff list_all_iff)

lemma filteredRows_blankRow: "filteredRows rows = filter (\<lambda>row. \<not> blankRow row) rows"
  unfolding filteredRows_def blankRow_def
  by (rule filter_cong) (auto simp: list_ex_iff list_all_iff blankCell_iff)

lemma mapResult_Inr_iff: "mapResult f xs = Inr ys \<longleftrightarrow> map f xs = map Inr ys"
proof (induction xs arbitrary: ys)
  case Nil
  then show ?case by auto
next
  case (Cons x xs)
  show ?case
  proof (cases "f x")
    case (Inl e)
    then show ?thesis by (cases ys) auto
  next
    case (Inr y)
    show ?thesis
    proof (cases "mapResult f xs")
      case (Inl e)
      with Cons [of "tl ys"] Inr show ?thesis by (cases ys) auto
    next
      case r: (Inr zs)
      with Cons [of zs] Cons [of "tl ys"] Inr show ?thesis by (cases ys) auto
    qed
  qed
qed

lemma scriptText_lines:
  "scriptText rows columns extraColumns options chunks =
     ''-- Generated by RedCoconut SQL Builder'' @ [CHR 0x0A]
     @ ''-- Dialect: '' @ dialectName (dialect options) @ [CHR 0x0A]
     @ ''-- Rows: '' @ numberToString (Finite (of_nat (length (filteredRows rows)))) @ [CHR 0x0A]
     @ [CHR 0x0A]
     @ join [CHR 0x0A, CHR 0x0A] (map (statementOf columns extraColumns options) chunks)"
  by (simp add: scriptText_def)

lemma scriptText_not_Nil: "scriptText rows columns extraColumns options chunks \<noteq> []"
  by (simp add: scriptText_lines)

lemma buildInsertScript_script:
  assumes "buildInsertScript rows columns extraColumns options = Some (Inr out)" and "out \<noteq> []"
  obtains tuples chunks where
    "rowValues rows columns extraColumns options = Inr tuples"
    "chunkArray tuples (mathMax (Finite 1) (rowsPerInsert options)) = Some chunks"
    "out = scriptText rows columns extraColumns options chunks"
  using assms
  by (auto simp: buildInsertScript_def split: if_splits sum.splits option.splits)

section \<open>Degenerate inputs\<close>

text \<open>
  C2. \<open>buildInsertScript\<close> returns the empty string, and does not throw, when the table
  name normalises to the empty string, or when no column, mapped or extra, is both
  included and has a non-empty normalised target name, or when no row survives the
  blank-row filter: in all these cases the result is exactly \<^verbatim>\<open>""\<close>.
\<close>

theorem degenerate_inputs_give_empty_script:
  assumes "normalizeIdentifier (tableName options) = []
     \<or> (list_all (\<lambda>c. \<not> (included c \<and> normalizeIdentifier (targetName c) \<noteq> [])) columns
        \<and> list_all (\<lambda>c. \<not> (extraInclude c \<and> normalizeIdentifier (extraTargetName c) \<noteq> []))
             extraColumns)
     \<or> list_all blankRow rows"
  shows "buildInsertScript rows columns extraColumns options = Some (Inr [])"
proof -
  have "includedColumns columns = []"
    if "list_all (\<lambda>c. \<not> (included c \<and> normalizeIdentifier (targetName c) \<noteq> [])) columns"
    using that by (simp add: includedColumns_def filter_empty_conv list_all_iff)
  moreover have "includedExtraColumns extraColumns = []"
    if "list_all (\<lambda>c. \<not> (extraInclude c \<and> normalizeIdentifier (extraTargetName c) \<noteq> []))
          extraColumns"
    using that by (simp add: includedExtraColumns_def filter_empty_conv list_all_iff)
  moreover have "filteredRows rows = []" if "list_all blankRow rows"
    using that by (simp add: filteredRows_blankRow filter_empty_conv list_all_iff)
  ultimately show ?thesis
    using assms by (auto simp: buildInsertScript_def)
qed

theorem degenerate_inputs_give_empty_script_witness:
  "buildInsertScript exampleRows exampleColumns [] (exampleOptions\<lparr>tableName := ''   ''\<rparr>)
     = Some (Inr [])
   \<and> buildInsertScript exampleRows (map (\<lambda>c. c\<lparr>included := False\<rparr>) exampleColumns) []
       exampleOptions = Some (Inr [])
   \<and> buildInsertScript [[CNull, CString ''  ''], []] exampleColumns [] exampleOptions
     = Some (Inr [])"
proof -
  have a: "normalizeIdentifier (tableName (exampleOptions\<lparr>tableName := ''   ''\<rparr>)) = []"
    by code_simp
  have b: "list_all (\<lambda>c. \<not> (included c \<and> normalizeIdentifier (targetName c) \<noteq> []))
             (map (\<lambda>c. c\<lparr>included := False\<rparr>) exampleColumns)
           \<and> list_all (\<lambda>c. \<not> (extraInclude c \<and> normalizeIdentifier (extraTargetName c) \<noteq> [])) []"
    by (simp add: exampleColumns_def)
  have c: "list_all blankRow [[CNull, CString ''  ''], []]"
    by code_simp
  show ?thesis
    using degenerate_inputs_give_empty_script
        [of "exampleOptions\<lparr>tableName := ''   ''\<rparr>" exampleColumns "[]" exampleRows]
      degenerate_inputs_give_empty_script
        [of exampleOptions "map (\<lambda>c. c\<lparr>included := False\<rparr>) exampleColumns" "[]" exampleRows]
      degenerate_inputs_give_empty_script
        [of exampleOptions exampleColumns "[]" "[[CNull, CString ''  ''], []]"]
      a b c
    by blast
qed

section \<open>The column list\<close>

text \<open>
  C8. An INSERT statement carries a column list iff \<open>includeColumnList\<close> is true or at
  least one extra column is included. The column list is the quoted target names of the
  mapped columns followed by those of the extra columns, in that order, which is the
  order of the values in every tuple. Without a column list the statement is the table
  reference and the VALUES block only.
\<close>

theorem column_list_rule:
  "statementOf columns extraColumns options chunk =
     ''INSERT INTO '' @ tableRef options
     @ (if includeColumnList options
           \<or> list_ex (\<lambda>c. extraInclude c \<and> normalizeIdentifier (extraTargetName c) \<noteq> [])
                extraColumns
        then '' (''
             @ join '', ''
                 (map (\<lambda>c. quoteIdentifier (targetName c) (dialect options))
                    (includedColumns columns)
                  @ map (\<lambda>c. quoteIdentifier (extraTargetName c) (dialect options))
                      (includedExtraColumns extraColumns))
             @ '')''
        else [])
     @ [CHR 0x0A] @ ''VALUES'' @ [CHR 0x0A] @ join ('','' @ [CHR 0x0A]) chunk @ '';''
   \<and> (rowValue columns extraColumns options row = Inr tuple \<longrightarrow>
        (\<exists>vs xs.
            map (\<lambda>c. toSqlLiteral (arrayGet row (sourceIndex c)) options) (includedColumns columns)
              = map Inr vs
          \<and> map (\<lambda>c. extraValueToSql c options) (includedExtraColumns extraColumns) = map Inr xs
          \<and> tuple = ''('' @ join '', '' (vs @ xs) @ '')''))"
proof -
  have "length (includedExtraColumns extraColumns) > 0
          \<longleftrightarrow> list_ex (\<lambda>c. extraInclude c \<and> normalizeIdentifier (extraTargetName c) \<noteq> [])
                extraColumns"
    by (auto simp: includedExtraColumns_def list_ex_iff filter_empty_conv)
  then have "statementOf columns extraColumns options chunk =
     ''INSERT INTO '' @ tableRef options
     @ (if includeColumnList options
           \<or> list_ex (\<lambda>c. extraInclude c \<and> normalizeIdentifier (extraTargetName c) \<noteq> [])
                extraColumns
        then '' (''
             @ join '', ''
                 (map (\<lambda>c. quoteIdentifier (targetName c) (dialect options))
                    (includedColumns columns)
                  @ map (\<lambda>c. quoteIdentifier (extraTargetName c) (dialect options))
                      (includedExtraColumns extraColumns))
             @ '')''
        else [])
     @ [CHR 0x0A] @ ''VALUES'' @ [CHR 0x0A] @ join ('','' @ [CHR 0x0A]) chunk @ '';''"
    by (simp add: statementOf_def Let_def columnList_def mappedColumns_def customColumns_def)
  moreover have "\<exists>vs xs.
            map (\<lambda>c. toSqlLiteral (arrayGet row (sourceIndex c)) options) (includedColumns columns)
              = map Inr vs
          \<and> map (\<lambda>c. extraValueToSql c options) (includedExtraColumns extraColumns) = map Inr xs
          \<and> tuple = ''('' @ join '', '' (vs @ xs) @ '')''"
    if "rowValue columns extraColumns options row = Inr tuple"
    using that
    by (auto simp: rowValue_def mapResult_Inr_iff [symmetric] split: sum.splits)
  ultimately show ?thesis by blast
qed

theorem column_list_rule_witness:
  "statementOf exampleColumns
     [\<lparr>extraId = ''1'', extraTargetName = ''created at'', extraInclude = True,
       extraMode = ModeSql, extraValue = ''NOW()''\<rparr>]
     (exampleOptions\<lparr>includeColumnList := False\<rparr>) [''(1, 2, NOW())'']
     = ''INSERT INTO `t` (`id`, `name`, `created_at`)'' @ [CHR 0x0A] @ ''VALUES'' @ [CHR 0x0A]
       @ ''(1, 2, NOW());''
   \<and> statementOf exampleColumns [] (exampleOptions\<lparr>includeColumnList := False\<rparr>) [''(1, 2)'']
     = ''INSERT INTO `t`'' @ [CHR 0x0A] @ ''VALUES'' @ [CHR 0x0A] @ ''(1, 2);''
   \<and> (\<exists>vs xs.
         map (\<lambda>c. toSqlLiteral (arrayGet [CNumber (Finite 1), CString ''Ann''] (sourceIndex c))
                  (exampleOptions\<lparr>includeColumnList := False\<rparr>))
           (includedColumns exampleColumns) = map Inr vs
       \<and> map (\<lambda>c. extraValueToSql c (exampleOptions\<lparr>includeColumnList := False\<rparr>))
           (includedExtraColumns
              [\<lparr>extraId = ''1'', extraTargetName = ''created at'', extraInclude = True,
                extraMode = ModeSql, extraValue = ''NOW()''\<rparr>]) = map Inr xs
       \<and> ''(1, '' @ [CHR 0x27] @ ''Ann'' @ [CHR 0x27] @ '', NOW())''
           = ''('' @ join '', '' (vs @ xs) @ '')'')"
proof -
  let ?x = "[\<lparr>extraId = ''1'', extraTargetName = ''created at'', extraInclude = True,
              extraMode = ModeSql, extraValue = ''NOW()''\<rparr>]"
  let ?o = "exampleOptions\<lparr>includeColumnList := False\<rparr>"
  have a: "''INSERT INTO '' @ tableRef ?o
     @ (if includeColumnList ?o
           \<or> list_ex (\<lambda>c. extraInclude c \<and> normalizeIdentifier (extraTargetName c) \<noteq> []) ?x
        then '' (''
             @ join '', ''
                 (map (\<lambda>c. quoteIdentifier (targetName c) (dialect ?o))
                    (includedColumns exampleColumns)
                  @ map (\<lambda>c. quoteIdentifier (extraTargetName c) (dialect ?o))
                      (includedExtraColumns ?x))
             @ '')''
        else [])
     @ [CHR 0x0A] @ ''VALUES'' @ [CHR 0x0A] @ join ('','' @ [CHR 0x0A]) [''(1, 2, NOW())''] @ '';''
     = ''INSERT INTO `t` (`id`, `name`, `created_at`)'' @ [CHR 0x0A] @ ''VALUES'' @ [CHR 0x0A]
       @ ''(1, 2, NOW());''"
    by code_simp
  have b: "''INSERT INTO '' @ tableRef ?o
     @ (if includeColumnList ?o
           \<or> list_ex (\<lambda>c. extraInclude c \<and> normalizeIdentifier (extraTargetName c) \<noteq> []) []
        then '' (''
             @ join '', ''
                 (map (\<lambda>c. quoteIdentifier (targetName c) (dialect ?o))
                    (includedColumns exampleColumns)
                  @ map (\<lambda>c. quoteIdentifier (extraTargetName c) (dialect ?o))
                      (includedExtraColumns []))
             @ '')''
        else [])
     @ [CHR 0x0A] @ ''VALUES'' @ [CHR 0x0A] @ join ('','' @ [CHR 0x0A]) [''(1, 2)''] @ '';''
     = ''INSERT INTO `t`'' @ [CHR 0x0A] @ ''VALUES'' @ [CHR 0x0A] @ ''(1, 2);''"
    by code_simp
  have c: "rowValue exampleColumns ?x ?o [CNumber (Finite 1), CString ''Ann'']
             = Inr (''(1, '' @ [CHR 0x27] @ ''Ann'' @ [CHR 0x27] @ '', NOW())'')"
    by code_simp
  have "statementOf exampleColumns ?x ?o [''(1, 2, NOW())'']
     = ''INSERT INTO `t` (`id`, `name`, `created_at`)'' @ [CHR 0x0A] @ ''VALUES'' @ [CHR 0x0A]
       @ ''(1, 2, NOW());''"
    using column_list_rule [of exampleColumns ?x ?o "[''(1, 2, NOW())'']" "[]" "[]", THEN conjunct1]
    by (simp only: a)
  moreover have "statementOf exampleColumns [] ?o [''(1, 2)'']
     = ''INSERT INTO `t`'' @ [CHR 0x0A] @ ''VALUES'' @ [CHR 0x0A] @ ''(1, 2);''"
    using column_list_rule [of exampleColumns "[]" ?o "[''(1, 2)'']" "[]" "[]", THEN conjunct1]
    by (simp only: b)
  moreover note column_list_rule [of exampleColumns ?x ?o "[]"
      "[CNumber (Finite 1), CString ''Ann'']"
      "''(1, '' @ [CHR 0x27] @ ''Ann'' @ [CHR 0x27] @ '', NOW())''", THEN conjunct2, rule_format, OF c]
  ultimately show ?thesis by blast
qed

section \<open>The script\<close>

lemma example_chunks:
  "chunkArray [''(1, '' @ [CHR 0x27] @ ''Ann'' @ [CHR 0x27] @ '')'',
               ''(2, '' @ [CHR 0x27] @ ''Bea'' @ [CHR 0x27] @ '')'']
     (mathMax (Finite 1) (rowsPerInsert exampleOptions))
   = Some [[''(1, '' @ [CHR 0x27] @ ''Ann'' @ [CHR 0x27] @ '')''],
           [''(2, '' @ [CHR 0x27] @ ''Bea'' @ [CHR 0x27] @ '')'']]"
  by code_simp

text \<open>
  C3. As the claim states it, the comment header has two lines. The builder writes
  three before the empty line: a fixed line naming the generator, the line of the
  dialect and the line of the row count.
\<close>

theorem header_counterexample:
  "buildInsertScript exampleRows exampleColumns [] exampleOptions = Some (Inr exampleScript)
   \<and> takeWhile (\<lambda>line. line \<noteq> []) (linesOf exampleScript)
       = [''-- Generated by RedCoconut SQL Builder'', ''-- Dialect: sqlite'', ''-- Rows: 2'']"
  by code_simp

text \<open>
  C3, amended. Every non-empty result of \<open>buildInsertScript\<close> is the concatenation of a
  three-line comment header (a fixed line, the line of the dialect name, the line of
  the count of surviving rows), then an empty line, then the INSERT statements, one per
  batch, joined by an empty line.
\<close>

theorem script_layout:
  assumes "buildInsertScript rows columns extraColumns options = Some (Inr out)"
    and "out \<noteq> []"
  shows "\<exists>tuples chunks.
           rowValues rows columns extraColumns options = Inr tuples
         \<and> chunkArray tuples (mathMax (Finite 1) (rowsPerInsert options)) = Some chunks
         \<and> out = ''-- Generated by RedCoconut SQL Builder'' @ [CHR 0x0A]
                 @ ''-- Dialect: '' @ dialectName (dialect options) @ [CHR 0x0A]
                 @ ''-- Rows: '' @ numberToString (Finite (of_nat (length (filteredRows rows))))
                 @ [CHR 0x0A]
                 @ [CHR 0x0A]
                 @ join [CHR 0x0A, CHR 0x0A]
                     (map (statementOf columns extraColumns options) chunks)"
  using buildInsertScript_script [OF assms] scriptText_lines by metis

theorem script_layout_witness:
  "exampleScript
     = ''-- Generated by RedCoconut SQL Builder'' @ [CHR 0x0A]
       @ ''-- Dialect: '' @ dialectName (dialect exampleOptions) @ [CHR 0x0A]
       @ ''-- Rows: '' @ numberToString (Finite (of_nat (length (filteredRows exampleRows))))
       @ [CHR 0x0A]
       @ [CHR 0x0A]
       @ join [CHR 0x0A, CHR 0x0A]
           (map (statementOf exampleColumns [] exampleOptions)
              [[''(1, '' @ [CHR 0x27] @ ''Ann'' @ [CHR 0x27] @ '')''],
               [''(2, '' @ [CHR 0x27] @ ''Bea'' @ [CHR 0x27] @ '')'']])"
proof -
  have "exampleScript \<noteq> []" by (simp add: exampleScript_def)
  from script_layout [OF example_script this]
  obtain tuples chunks where
    t: "rowValues exampleRows exampleColumns [] exampleOptions = Inr tuples" and
    c: "chunkArray tuples (mathMax (Finite 1) (rowsPerInsert exampleOptions)) = Some chunks" and
    out: "exampleScript
       = ''-- Generated by RedCoconut SQL Builder'' @ [CHR 0x0A]
         @ ''-- Dialect: '' @ dialectName (dialect exampleOptions) @ [CHR 0x0A]
         @ ''-- Rows: '' @ numberToString (Finite (of_nat (length (filteredRows exampleRows))))
         @ [CHR 0x0A]
         @ [CHR 0x0A]
         @ join [CHR 0x0A, CHR 0x0A] (map (statementOf exampleColumns [] exampleOptions) chunks)"
    by blast
  from t have "tuples = [''(1, '' @ [CHR 0x27] @ ''Ann'' @ [CHR 0x27] @ '')'',
                         ''(2, '' @ [CHR 0x27] @ ''Bea'' @ [CHR 0x27] @ '')'']"
    by (simp only: example_tuples sum.inject)
  with c have "chunks = [[''(1, '' @ [CHR 0x27] @ ''Ann'' @ [CHR 0x27] @ '')''],
                         [''(2, '' @ [CHR 0x27] @ ''Bea'' @ [CHR 0x27] @ '')'']]"
    by (simp only: example_chunks option.inject)
  with out show ?thesis by (simp only:)
qed

section \<open>Batches\<close>

lemma concat_batchesOf: "0 < k \<Longrightarrow> concat (batchesOf k xs) = xs"
proof (induction k xs rule: batchesOf.induct)
  case (1 k xs)
  then show ?case by (cases "xs = []") (simp_all add: batchesOf_Cons)
qed

lemma batchesOf_sizes: "list_all (\<lambda>chunk. chunk \<noteq> [] \<and> length chunk \<le> k) (batchesOf k xs)"
proof (induction k xs rule: batchesOf.induct)
  case (1 k xs)
  show ?case
  proof (cases "k = 0 \<or> xs = []")
    case True
    then show ?thesis by (subst batchesOf.simps) simp
  next
    case False
    with 1 show ?thesis by (subst batchesOf.simps) simp
  qed
qed

lemma mathMax_one_of_int: "mathMax (Finite 1) (Finite (of_int n)) = Finite (of_int (max 1 n))"
  by (simp add: mathMax_def jsLess_def max_def)

lemma chunkArray_integer_size:
  assumes "length items \<le> 2 ^ 53"
  shows "chunkArray items (mathMax (Finite 1) (Finite (of_int n)))
           = Some (batchesOf (nat (max 1 n)) items)"
  using chunkLoop_integer_size [of "max 1 n" items 0 "[]"] assms
  by (simp add: chunkArray_def mathMax_one_of_int)


text \<open>
  C7. As the claim states it, the batches have at most max(1, rowsPerInsert) tuples for
  every value of \<open>rowsPerInsert\<close>. The loop of \<open>chunkArray\<close> adds the size to a fractional
  index and \<open>slice\<close> truncates both ends: with \<open>rowsPerInsert\<close> 2.5 and five rows the
  second statement carries three tuples. With NaN, \<open>Math.max\<close> is NaN, and the only
  statement carries no tuple at all.
\<close>

theorem fractional_batch_counterexample:
  "buildInsertScript (exampleRows @ exampleRows @ [hd exampleRows]) exampleColumns []
     (exampleOptions\<lparr>rowsPerInsert := Finite (5 / 2)\<rparr>)
   = Some (Inr (scriptText (exampleRows @ exampleRows @ [hd exampleRows]) exampleColumns []
       (exampleOptions\<lparr>rowsPerInsert := Finite (5 / 2)\<rparr>)
       [[''(1, '' @ [CHR 0x27] @ ''Ann'' @ [CHR 0x27] @ '')'',
         ''(2, '' @ [CHR 0x27] @ ''Bea'' @ [CHR 0x27] @ '')''],
        [''(1, '' @ [CHR 0x27] @ ''Ann'' @ [CHR 0x27] @ '')'',
         ''(2, '' @ [CHR 0x27] @ ''Bea'' @ [CHR 0x27] @ '')'',
         ''(1, '' @ [CHR 0x27] @ ''Ann'' @ [CHR 0x27] @ '')'']]))
   \<and> buildInsertScript exampleRows exampleColumns [] (exampleOptions\<lparr>rowsPerInsert := NaN\<rparr>)
     = Some (Inr (scriptText exampleRows exampleColumns []
         (exampleOptions\<lparr>rowsPerInsert := NaN\<rparr>) [[]]))"
  by code_simp

text \<open>
  C7, amended. For every sequence of surviving rows and every integer value of
  \<open>rowsPerInsert\<close>, the value tuples are partitioned into consecutive batches of at most
  max(1, rowsPerInsert) tuples each, in the order of the rows, and one INSERT statement
  is emitted per batch; so with \<open>rowsPerInsert\<close> 1 and two rows the output has two INSERT
  statements of one tuple each. (An array has fewer than \<open>2 ^ 32\<close> elements.)
\<close>

theorem integer_batch_size:
  assumes "rowsPerInsert options = Finite (of_int n)"
    and "length rows < 2 ^ 32"
    and "rowValues rows columns extraColumns options = Inr tuples"
  shows "\<exists>chunks.
           chunkArray tuples (mathMax (Finite 1) (rowsPerInsert options)) = Some chunks
         \<and> concat chunks = tuples
         \<and> list_all (\<lambda>chunk. chunk \<noteq> [] \<and> int (length chunk) \<le> max 1 n) chunks
         \<and> (buildInsertScript rows columns extraColumns options = Some (Inr [])
            \<or> buildInsertScript rows columns extraColumns options
                = Some (Inr (''-- Generated by RedCoconut SQL Builder'' @ [CHR 0x0A]
                    @ ''-- Dialect: '' @ dialectName (dialect options) @ [CHR 0x0A]
                    @ ''-- Rows: ''
                    @ numberToString (Finite (of_nat (length (filteredRows rows))))
                    @ [CHR 0x0A]
                    @ [CHR 0x0A]
                    @ join [CHR 0x0A, CHR 0x0A]
                        (map (statementOf columns extraColumns options) chunks))))"
proof -
  define chunks where "chunks = batchesOf (nat (max 1 n)) tuples"
  have "map (rowValue columns extraColumns options) (filteredRows rows) = map Inr tuples"
    using assms(3) by (simp add: rowValues_def mapResult_Inr_iff)
  then have "length tuples = length (filteredRows rows)"
    by (metis length_map)
  also have "\<dots> \<le> length rows"
    by (simp add: filteredRows_def)
  finally have "length tuples \<le> 2 ^ 53"
    using assms(2) by simp
  then have c: "chunkArray tuples (mathMax (Finite 1) (rowsPerInsert options)) = Some chunks"
    unfolding assms(1) chunks_def by (rule chunkArray_integer_size)
  have "concat chunks = tuples"
    by (simp add: chunks_def concat_batchesOf)
  moreover have "list_all (\<lambda>chunk. chunk \<noteq> [] \<and> int (length chunk) \<le> max 1 n) chunks"
    using batchesOf_sizes [of "nat (max 1 n)" tuples]
    by (auto simp: chunks_def list_all_iff)
  moreover have "buildInsertScript rows columns extraColumns options = Some (Inr [])
     \<or> buildInsertScript rows columns extraColumns options
         = Some (Inr (scriptText rows columns extraColumns options chunks))"
    by (simp add: buildInsertScript_def assms(3) c)
  ultimately show ?thesis
    using c unfolding scriptText_lines by blast
qed

lemma singletons_of_concat:
  "list_all (\<lambda>chunk. chunk \<noteq> [] \<and> int (length chunk) \<le> 1) chunks
     \<Longrightarrow> chunks = map (\<lambda>x. [x]) (concat chunks)"
proof (induction chunks)
  case Nil
  then show ?case by simp
next
  case (Cons c cs)
  then have "length c = 1" by (cases c) auto
  then obtain x where "c = [x]" by (cases c) auto
  with Cons show ?case by simp
qed

theorem integer_batch_size_witness:
  "buildInsertScript exampleRows exampleColumns [] exampleOptions
     = Some (Inr (''-- Generated by RedCoconut SQL Builder'' @ [CHR 0x0A]
         @ ''-- Dialect: '' @ dialectName (dialect exampleOptions) @ [CHR 0x0A]
         @ ''-- Rows: '' @ numberToString (Finite (of_nat (length (filteredRows exampleRows))))
         @ [CHR 0x0A]
         @ [CHR 0x0A]
         @ join [CHR 0x0A, CHR 0x0A]
             (map (statementOf exampleColumns [] exampleOptions)
                [[''(1, '' @ [CHR 0x27] @ ''Ann'' @ [CHR 0x27] @ '')''],
                 [''(2, '' @ [CHR 0x27] @ ''Bea'' @ [CHR 0x27] @ '')'']])))"
proof -
  let ?tuples = "[''(1, '' @ [CHR 0x27] @ ''Ann'' @ [CHR 0x27] @ '')'',
                  ''(2, '' @ [CHR 0x27] @ ''Bea'' @ [CHR 0x27] @ '')'']"
  have r: "rowsPerInsert exampleOptions = Finite (of_int 1)"
    by (simp add: exampleOptions_def)
  have l: "length exampleRows < 2 ^ 32"
    by (simp add: exampleRows_def)
  from integer_batch_size [OF r l example_tuples]
  obtain chunks where
    c: "concat chunks = ?tuples"
      "list_all (\<lambda>chunk. chunk \<noteq> [] \<and> int (length chunk) \<le> max 1 1) chunks" and
    b: "buildInsertScript exampleRows exampleColumns [] exampleOptions = Some (Inr [])
        \<or> buildInsertScript exampleRows exampleColumns [] exampleOptions
            = Some (Inr (''-- Generated by RedCoconut SQL Builder'' @ [CHR 0x0A]
                @ ''-- Dialect: '' @ dialectName (dialect exampleOptions) @ [CHR 0x0A]
                @ ''-- Rows: ''
                @ numberToString (Finite (of_nat (length (filteredRows exampleRows))))
                @ [CHR 0x0A]
                @ [CHR 0x0A]
                @ join [CHR 0x0A, CHR 0x0A]
                    (map (statementOf exampleColumns [] exampleOptions) chunks)))"
    by blast
  from c(2) have "chunks = map (\<lambda>x. [x]) (concat chunks)"
    by (intro singletons_of_concat) simp
  then have chunks: "chunks = [[''(1, '' @ [CHR 0x27] @ ''Ann'' @ [CHR 0x27] @ '')''],
                               [''(2, '' @ [CHR 0x27] @ ''Bea'' @ [CHR 0x27] @ '')'']]"
    unfolding c(1) by simp
  have "exampleScript \<noteq> []" by (simp add: exampleScript_def)
  then have "buildInsertScript exampleRows exampleColumns [] exampleOptions \<noteq> Some (Inr [])"
    by (simp add: example_script)
  with b show ?thesis unfolding chunks by blast
qed

section \<open>The decimal string of a count\<close>









section \<open>Blank rows\<close>





end
